theory Spec2Isabelle
  imports Complex_Main
begin

section \<open>Messages\<close>

text \<open>
  Modelled from the spec: the message type hierarchy lives in \<^verbatim>\<open>..messages\<close>, outside the
  file under verification. The spec describes a message as an immutable record with a
  \<^verbatim>\<open>source\<close> identifier, a kind discriminator, a textual rendering (\<^verbatim>\<open>to_text()\<close>) and an
  optional usage record. The kinds that \<^verbatim>\<open>_terminations.py\<close> inspects with \<^verbatim>\<open>isinstance\<close> are
  constructors of their own; every other chat message or agent event is opaque.
  A handoff carries its \<^verbatim>\<open>target\<close>; a tool-call execution event carries the names of its
  execution entries, in order (only \<^verbatim>\<open>execution.name\<close> is read).
\<close>

record RequestUsage =
  prompt_tokens :: int
  completion_tokens :: int

datatype message_kind =
    TextMessage
  | StopMessage
  | HandoffMessage string
  | ToolCallExecutionEvent "string list"
  | OtherChatMessage
  | OtherAgentEvent

record message =
  source :: string
  kind :: message_kind
  to_text :: string
  models_usage :: "RequestUsage option"

text \<open>\<^verbatim>\<open>isinstance(m, BaseChatMessage)\<close>: text, stop and handoff messages are chat messages,
  a tool-call execution event is an agent event.\<close>

definition is_BaseChatMessage :: "message \<Rightarrow> bool" where
  "is_BaseChatMessage m =
     (case kind m of
        TextMessage \<Rightarrow> True
      | StopMessage \<Rightarrow> True
      | HandoffMessage t \<Rightarrow> True
      | ToolCallExecutionEvent es \<Rightarrow> False
      | OtherChatMessage \<Rightarrow> True
      | OtherAgentEvent \<Rightarrow> False)"

text \<open>\<^verbatim>\<open>StopMessage(content=c, source=s)\<close>: the value every condition returns when it fires.
  Its rendering is its content and it carries no usage record.\<close>

definition new_StopMessage :: "string \<Rightarrow> string \<Rightarrow> message" where
  "new_StopMessage c s = \<lparr>source = s, kind = StopMessage, to_text = c, models_usage = None\<rparr>"

section \<open>Python built-ins used by the conditions\<close>

text \<open>\<^verbatim>\<open>str(n)\<close> for an integer, as an f-string interpolates it: decimal digits, a leading
  minus sign for a negative number.\<close>

definition digit_char :: "nat \<Rightarrow> char" where
  "digit_char d = ''0123456789'' ! d"

function str_nat :: "nat \<Rightarrow> string" where
  "str_nat n = (if n < 10 then [digit_char n] else str_nat (n div 10) @ [digit_char (n mod 10)])"
  by pat_completeness auto
termination
  by (relation "measure (\<lambda>n. n)") auto

declare str_nat.simps [simp del]

definition str_int :: "int \<Rightarrow> string" where
  "str_int i = (if i < 0 then CHR ''-'' # str_nat (nat (- i)) else str_nat (nat i))"

text \<open>\<^verbatim>\<open>sub in s\<close> on strings: \<open>sub\<close> occurs in \<open>s\<close> as a contiguous run.\<close>

fun str_contains :: "string \<Rightarrow> string \<Rightarrow> bool" where
  "str_contains sub [] = (sub = [])"
| "str_contains sub (c # cs) = (take (length sub) (c # cs) = sub \<or> str_contains sub cs)"

text \<open>What the interpreter supplies to one call: the reading of \<^verbatim>\<open>time.monotonic()\<close> and the
  rendering of a float inside an f-string. Floats are idealised as reals.\<close>

record runtime =
  monotonic :: real
  float_str :: "real \<Rightarrow> string"

text \<open>A Python number as a caller may pass it where the annotation says \<^verbatim>\<open>float\<close>: nothing
  converts an \<^verbatim>\<open>int\<close> argument, it compares by its value and an f-string renders it as an
  \<^verbatim>\<open>int\<close>.\<close>

datatype number = IntNum int | FloatNum real

fun number_value :: "number \<Rightarrow> real" where
  "number_value (IntNum i) = real_of_int i"
| "number_value (FloatNum x) = x"

fun number_str :: "runtime \<Rightarrow> number \<Rightarrow> string" where
  "number_str rt (IntNum i) = str_int i"
| "number_str rt (FloatNum x) = float_str rt x"

datatype exn = TerminatedException | ValueError | AttributeError | UserException string

type_synonym 's outcome = "exn + (message option \<times> 's)"

section \<open>The termination conditions\<close>

subsection \<open>StopMessageTermination\<close>

record StopMessageTermination =
  stop_terminated :: bool

definition StopMessageTermination_init :: StopMessageTermination where
  "StopMessageTermination_init = \<lparr>stop_terminated = False\<rparr>"

fun StopMessageTermination_loop ::
  "StopMessageTermination \<Rightarrow> message list \<Rightarrow> message option \<times> StopMessageTermination" where
  "StopMessageTermination_loop s [] = (None, s)"
| "StopMessageTermination_loop s (m # ms) =
     (if kind m = StopMessage
      then (Some (new_StopMessage ''Stop message received'' ''StopMessageTermination''),
            s\<lparr>stop_terminated := True\<rparr>)
      else StopMessageTermination_loop s ms)"

definition StopMessageTermination_call ::
  "StopMessageTermination \<Rightarrow> message list \<Rightarrow> StopMessageTermination outcome" where
  "StopMessageTermination_call s messages =
     (if stop_terminated s then Inl TerminatedException
      else Inr (StopMessageTermination_loop s messages))"

definition StopMessageTermination_reset :: "StopMessageTermination \<Rightarrow> StopMessageTermination" where
  "StopMessageTermination_reset s = s\<lparr>stop_terminated := False\<rparr>"

subsection \<open>MaxMessageTermination\<close>

record MaxMessageTermination =
  max_messages :: int
  message_count :: int
  include_agent_event :: bool

definition MaxMessageTermination_init :: "int \<Rightarrow> bool \<Rightarrow> MaxMessageTermination" where
  "MaxMessageTermination_init mx inc =
     \<lparr>max_messages = mx, message_count = 0, include_agent_event = inc\<rparr>"

definition MaxMessageTermination_terminated :: "MaxMessageTermination \<Rightarrow> bool" where
  "MaxMessageTermination_terminated s = (message_count s \<ge> max_messages s)"

definition MaxMessageTermination_call ::
  "MaxMessageTermination \<Rightarrow> message list \<Rightarrow> MaxMessageTermination outcome" where
  "MaxMessageTermination_call s messages =
     (if MaxMessageTermination_terminated s then Inl TerminatedException
      else
        let s' = s\<lparr>message_count := message_count s +
                   int (length (filter (\<lambda>m. include_agent_event s \<or> is_BaseChatMessage m) messages))\<rparr>
        in if message_count s' \<ge> max_messages s'
           then Inr (Some (new_StopMessage
                       (''Maximum number of messages '' @ str_int (max_messages s') @
                        '' reached, current message count: '' @ str_int (message_count s'))
                       ''MaxMessageTermination''), s')
           else Inr (None, s'))"

definition MaxMessageTermination_reset :: "MaxMessageTermination \<Rightarrow> MaxMessageTermination" where
  "MaxMessageTermination_reset s = s\<lparr>message_count := 0\<rparr>"

subsection \<open>TextMentionTermination\<close>

record TextMentionTermination =
  termination_text :: string
  mention_terminated :: bool
  mention_sources :: "string list option"

definition TextMentionTermination_init ::
  "string \<Rightarrow> string list option \<Rightarrow> TextMentionTermination" where
  "TextMentionTermination_init text sources =
     \<lparr>termination_text = text, mention_terminated = False, mention_sources = sources\<rparr>"

fun TextMentionTermination_loop ::
  "TextMentionTermination \<Rightarrow> message list \<Rightarrow> message option \<times> TextMentionTermination" where
  "TextMentionTermination_loop s [] = (None, s)"
| "TextMentionTermination_loop s (m # ms) =
     (if (case mention_sources s of None \<Rightarrow> False | Some srcs \<Rightarrow> source m \<notin> set srcs)
      then TextMentionTermination_loop s ms
      else if str_contains (termination_text s) (to_text m)
      then (Some (new_StopMessage
                   (''Text '' @ [CHR 0x27] @ termination_text s @ [CHR 0x27] @ '' mentioned'')
                   ''TextMentionTermination''),
            s\<lparr>mention_terminated := True\<rparr>)
      else TextMentionTermination_loop s ms)"

definition TextMentionTermination_call ::
  "TextMentionTermination \<Rightarrow> message list \<Rightarrow> TextMentionTermination outcome" where
  "TextMentionTermination_call s messages =
     (if mention_terminated s then Inl TerminatedException
      else Inr (TextMentionTermination_loop s messages))"

definition TextMentionTermination_reset :: "TextMentionTermination \<Rightarrow> TextMentionTermination" where
  "TextMentionTermination_reset s = s\<lparr>mention_terminated := False\<rparr>"

subsection \<open>FunctionalTermination\<close>

text \<open>The user's function is a parameter: it returns a truth value or raises, and what it
  raises leaves \<^verbatim>\<open>__call__\<close> unchanged. The synchronous and the awaited branch apply it to
  the same batch.\<close>

record FunctionalTermination =
  func :: "message list \<Rightarrow> exn + bool"
  func_terminated :: bool

definition FunctionalTermination_init ::
  "(message list \<Rightarrow> exn + bool) \<Rightarrow> FunctionalTermination" where
  "FunctionalTermination_init f = \<lparr>func = f, func_terminated = False\<rparr>"

definition FunctionalTermination_call ::
  "FunctionalTermination \<Rightarrow> message list \<Rightarrow> FunctionalTermination outcome" where
  "FunctionalTermination_call s messages =
     (if func_terminated s then Inl TerminatedException
      else case func s messages of
             Inl e \<Rightarrow> Inl e
           | Inr result \<Rightarrow>
               if result
               then Inr (Some (new_StopMessage ''Functional termination condition met''
                                 ''FunctionalTermination''),
                         s\<lparr>func_terminated := True\<rparr>)
               else Inr (None, s))"

definition FunctionalTermination_reset :: "FunctionalTermination \<Rightarrow> FunctionalTermination" where
  "FunctionalTermination_reset s = s\<lparr>func_terminated := False\<rparr>"

subsection \<open>TokenUsageTermination\<close>

record TokenUsageTermination =
  max_total_token :: "int option"
  max_prompt_token :: "int option"
  max_completion_token :: "int option"
  total_token_count :: int
  prompt_token_count :: int
  completion_token_count :: int

definition TokenUsageTermination_init ::
  "int option \<Rightarrow> int option \<Rightarrow> int option \<Rightarrow> exn + TokenUsageTermination" where
  "TokenUsageTermination_init mt mp mc =
     (if mt = None \<and> mp = None \<and> mc = None then Inl ValueError
      else Inr \<lparr>max_total_token = mt, max_prompt_token = mp, max_completion_token = mc,
                total_token_count = 0, prompt_token_count = 0, completion_token_count = 0\<rparr>)"

definition TokenUsageTermination_terminated :: "TokenUsageTermination \<Rightarrow> bool" where
  "TokenUsageTermination_terminated s =
     ((case max_total_token s of None \<Rightarrow> False | Some mt \<Rightarrow> total_token_count s \<ge> mt)
      \<or> (case max_prompt_token s of None \<Rightarrow> False | Some mp \<Rightarrow> prompt_token_count s \<ge> mp)
      \<or> (case max_completion_token s of None \<Rightarrow> False
          | Some mc \<Rightarrow> completion_token_count s \<ge> mc))"

fun TokenUsageTermination_loop ::
  "TokenUsageTermination \<Rightarrow> message list \<Rightarrow> TokenUsageTermination" where
  "TokenUsageTermination_loop s [] = s"
| "TokenUsageTermination_loop s (m # ms) =
     (case models_usage m of
        None \<Rightarrow> TokenUsageTermination_loop s ms
      | Some u \<Rightarrow>
          TokenUsageTermination_loop
            (s\<lparr>prompt_token_count := prompt_token_count s + prompt_tokens u,
               completion_token_count := completion_token_count s + completion_tokens u,
               total_token_count := total_token_count s + (prompt_tokens u + completion_tokens u)\<rparr>)
            ms)"

definition TokenUsageTermination_content :: "TokenUsageTermination \<Rightarrow> string" where
  "TokenUsageTermination_content s =
     ''Token usage limit reached, total token count: '' @ str_int (total_token_count s) @
     '', prompt token count: '' @ str_int (prompt_token_count s) @
     '', completion token count: '' @ str_int (completion_token_count s) @ ''.''"

definition TokenUsageTermination_call ::
  "TokenUsageTermination \<Rightarrow> message list \<Rightarrow> TokenUsageTermination outcome" where
  "TokenUsageTermination_call s messages =
     (if TokenUsageTermination_terminated s then Inl TerminatedException
      else
        let s' = TokenUsageTermination_loop s messages
        in if TokenUsageTermination_terminated s'
           then Inr (Some (new_StopMessage (TokenUsageTermination_content s')
                             ''TokenUsageTermination''), s')
           else Inr (None, s'))"

definition TokenUsageTermination_reset :: "TokenUsageTermination \<Rightarrow> TokenUsageTermination" where
  "TokenUsageTermination_reset s =
     s\<lparr>total_token_count := 0, prompt_token_count := 0, completion_token_count := 0\<rparr>"

subsection \<open>HandoffTermination\<close>

record HandoffTermination =
  handoff_terminated :: bool
  handoff_target :: string

definition HandoffTermination_init :: "string \<Rightarrow> HandoffTermination" where
  "HandoffTermination_init target = \<lparr>handoff_terminated = False, handoff_target = target\<rparr>"

fun HandoffTermination_loop ::
  "HandoffTermination \<Rightarrow> message list \<Rightarrow> message option \<times> HandoffTermination" where
  "HandoffTermination_loop s [] = (None, s)"
| "HandoffTermination_loop s (m # ms) =
     (if (case kind m of HandoffMessage t \<Rightarrow> t = handoff_target s | _ \<Rightarrow> False)
      then (Some (new_StopMessage
                   (''Handoff to '' @ handoff_target s @ '' from '' @ source m @ '' detected.'')
                   ''HandoffTermination''),
            s\<lparr>handoff_terminated := True\<rparr>)
      else HandoffTermination_loop s ms)"

definition HandoffTermination_call ::
  "HandoffTermination \<Rightarrow> message list \<Rightarrow> HandoffTermination outcome" where
  "HandoffTermination_call s messages =
     (if handoff_terminated s then Inl TerminatedException
      else Inr (HandoffTermination_loop s messages))"

definition HandoffTermination_reset :: "HandoffTermination \<Rightarrow> HandoffTermination" where
  "HandoffTermination_reset s = s\<lparr>handoff_terminated := False\<rparr>"

subsection \<open>TimeoutTermination\<close>

record TimeoutTermination =
  timeout_seconds :: number
  start_time :: real
  timeout_terminated :: bool

definition TimeoutTermination_init :: "runtime \<Rightarrow> number \<Rightarrow> TimeoutTermination" where
  "TimeoutTermination_init rt secs =
     \<lparr>timeout_seconds = secs, start_time = monotonic rt, timeout_terminated = False\<rparr>"

definition TimeoutTermination_call ::
  "runtime \<Rightarrow> TimeoutTermination \<Rightarrow> message list \<Rightarrow> TimeoutTermination outcome" where
  "TimeoutTermination_call rt s messages =
     (if timeout_terminated s then Inl TerminatedException
      else if monotonic rt - start_time s \<ge> number_value (timeout_seconds s)
      then Inr (Some (new_StopMessage
                  (''Timeout of '' @ number_str rt (timeout_seconds s) @ '' seconds reached'')
                  ''TimeoutTermination''),
                s\<lparr>timeout_terminated := True\<rparr>)
      else Inr (None, s))"

definition TimeoutTermination_reset :: "runtime \<Rightarrow> TimeoutTermination \<Rightarrow> TimeoutTermination" where
  "TimeoutTermination_reset rt s = s\<lparr>start_time := monotonic rt, timeout_terminated := False\<rparr>"

subsection \<open>ExternalTermination\<close>

record ExternalTermination =
  external_terminated :: bool
  setted :: bool

definition ExternalTermination_init :: ExternalTermination where
  "ExternalTermination_init = \<lparr>external_terminated = False, setted = False\<rparr>"

definition ExternalTermination_set :: "ExternalTermination \<Rightarrow> ExternalTermination" where
  "ExternalTermination_set s = s\<lparr>setted := True\<rparr>"

definition ExternalTermination_call ::
  "ExternalTermination \<Rightarrow> message list \<Rightarrow> ExternalTermination outcome" where
  "ExternalTermination_call s messages =
     (if external_terminated s then Inl TerminatedException
      else if setted s
      then Inr (Some (new_StopMessage ''External termination requested'' ''ExternalTermination''),
                s\<lparr>external_terminated := True\<rparr>)
      else Inr (None, s))"

definition ExternalTermination_reset :: "ExternalTermination \<Rightarrow> ExternalTermination" where
  "ExternalTermination_reset s = s\<lparr>external_terminated := False, setted := False\<rparr>"

subsection \<open>SourceMatchTermination\<close>

record SourceMatchTermination =
  match_sources :: "string list"
  match_terminated :: bool

definition SourceMatchTermination_init :: "string list \<Rightarrow> SourceMatchTermination" where
  "SourceMatchTermination_init sources = \<lparr>match_sources = sources, match_terminated = False\<rparr>"

fun SourceMatchTermination_loop ::
  "SourceMatchTermination \<Rightarrow> message list \<Rightarrow> message option \<times> SourceMatchTermination" where
  "SourceMatchTermination_loop s [] = (None, s)"
| "SourceMatchTermination_loop s (m # ms) =
     (if source m \<in> set (match_sources s)
      then (Some (new_StopMessage ([CHR 0x27] @ source m @ [CHR 0x27] @ '' answered'')
                   ''SourceMatchTermination''),
            s\<lparr>match_terminated := True\<rparr>)
      else SourceMatchTermination_loop s ms)"

definition SourceMatchTermination_call ::
  "SourceMatchTermination \<Rightarrow> message list \<Rightarrow> SourceMatchTermination outcome" where
  "SourceMatchTermination_call s messages =
     (if match_terminated s then Inl TerminatedException
      else if messages = [] then Inr (None, s)
      else Inr (SourceMatchTermination_loop s messages))"

definition SourceMatchTermination_reset :: "SourceMatchTermination \<Rightarrow> SourceMatchTermination" where
  "SourceMatchTermination_reset s = s\<lparr>match_terminated := False\<rparr>"

subsection \<open>TextMessageTermination\<close>

record TextMessageTermination =
  textmsg_terminated :: bool
  textmsg_source :: "string option"

definition TextMessageTermination_init :: "string option \<Rightarrow> TextMessageTermination" where
  "TextMessageTermination_init src = \<lparr>textmsg_terminated = False, textmsg_source = src\<rparr>"

fun TextMessageTermination_loop ::
  "TextMessageTermination \<Rightarrow> message list \<Rightarrow> message option \<times> TextMessageTermination" where
  "TextMessageTermination_loop s [] = (None, s)"
| "TextMessageTermination_loop s (m # ms) =
     (if kind m = TextMessage \<and>
         (case textmsg_source s of None \<Rightarrow> True | Some src \<Rightarrow> source m = src)
      then (Some (new_StopMessage
                   (''Text message received from '' @ [CHR 0x27] @ source m @ [CHR 0x27])
                   ''TextMessageTermination''),
            s\<lparr>textmsg_terminated := True\<rparr>)
      else TextMessageTermination_loop s ms)"

definition TextMessageTermination_call ::
  "TextMessageTermination \<Rightarrow> message list \<Rightarrow> TextMessageTermination outcome" where
  "TextMessageTermination_call s messages =
     (if textmsg_terminated s then Inl TerminatedException
      else Inr (TextMessageTermination_loop s messages))"

definition TextMessageTermination_reset :: "TextMessageTermination \<Rightarrow> TextMessageTermination" where
  "TextMessageTermination_reset s = s\<lparr>textmsg_terminated := False\<rparr>"

subsection \<open>FunctionCallTermination\<close>

record FunctionCallTermination =
  call_terminated :: bool
  function_name :: string

definition FunctionCallTermination_init :: "string \<Rightarrow> FunctionCallTermination" where
  "FunctionCallTermination_init name = \<lparr>call_terminated = False, function_name = name\<rparr>"

text \<open>The inner loop over the execution entries of one event: \<open>Some r\<close> when it returns
  \<open>r\<close> from \<^verbatim>\<open>__call__\<close>, \<open>None\<close> when it runs to its end.\<close>

fun FunctionCallTermination_executions ::
  "FunctionCallTermination \<Rightarrow> string list \<Rightarrow> (message option \<times> FunctionCallTermination) option"
  where
  "FunctionCallTermination_executions s [] = None"
| "FunctionCallTermination_executions s (name # names) =
     (if name = function_name s
      then Some (Some (new_StopMessage
                         (''Function '' @ [CHR 0x27] @ function_name s @ [CHR 0x27] @
                          '' was executed.'')
                         ''FunctionCallTermination''),
                 s\<lparr>call_terminated := True\<rparr>)
      else FunctionCallTermination_executions s names)"

fun FunctionCallTermination_loop ::
  "FunctionCallTermination \<Rightarrow> message list \<Rightarrow> message option \<times> FunctionCallTermination" where
  "FunctionCallTermination_loop s [] = (None, s)"
| "FunctionCallTermination_loop s (m # ms) =
     (case kind m of
        ToolCallExecutionEvent names \<Rightarrow>
          (case FunctionCallTermination_executions s names of
             Some r \<Rightarrow> r
           | None \<Rightarrow> FunctionCallTermination_loop s ms)
      | _ \<Rightarrow> FunctionCallTermination_loop s ms)"

definition FunctionCallTermination_call ::
  "FunctionCallTermination \<Rightarrow> message list \<Rightarrow> FunctionCallTermination outcome" where
  "FunctionCallTermination_call s messages =
     (if call_terminated s then Inl TerminatedException
      else Inr (FunctionCallTermination_loop s messages))"

definition FunctionCallTermination_reset :: "FunctionCallTermination \<Rightarrow> FunctionCallTermination" where
  "FunctionCallTermination_reset s = s\<lparr>call_terminated := False\<rparr>"

section \<open>The protocol: one interface over every condition\<close>

text \<open>Every class implements \<^verbatim>\<open>TerminationCondition\<close>; a caller holds any of them and
  dispatches on the class.\<close>

datatype condition =
    StopMessageT StopMessageTermination
  | MaxMessageT MaxMessageTermination
  | TextMentionT TextMentionTermination
  | FunctionalT FunctionalTermination
  | TokenUsageT TokenUsageTermination
  | HandoffT HandoffTermination
  | TimeoutT TimeoutTermination
  | ExternalT ExternalTermination
  | SourceMatchT SourceMatchTermination
  | TextMessageT TextMessageTermination
  | FunctionCallT FunctionCallTermination

fun terminated :: "condition \<Rightarrow> bool" where
  "terminated (StopMessageT s) = stop_terminated s"
| "terminated (MaxMessageT s) = MaxMessageTermination_terminated s"
| "terminated (TextMentionT s) = mention_terminated s"
| "terminated (FunctionalT s) = func_terminated s"
| "terminated (TokenUsageT s) = TokenUsageTermination_terminated s"
| "terminated (HandoffT s) = handoff_terminated s"
| "terminated (TimeoutT s) = timeout_terminated s"
| "terminated (ExternalT s) = external_terminated s"
| "terminated (SourceMatchT s) = match_terminated s"
| "terminated (TextMessageT s) = textmsg_terminated s"
| "terminated (FunctionCallT s) = call_terminated s"

definition lift_outcome :: "('s \<Rightarrow> condition) \<Rightarrow> 's outcome \<Rightarrow> condition outcome" where
  "lift_outcome C r = (case r of Inl e \<Rightarrow> Inl e | Inr (d, s') \<Rightarrow> Inr (d, C s'))"

fun call :: "runtime \<Rightarrow> condition \<Rightarrow> message list \<Rightarrow> condition outcome" where
  "call rt (StopMessageT s) ms = lift_outcome StopMessageT (StopMessageTermination_call s ms)"
| "call rt (MaxMessageT s) ms = lift_outcome MaxMessageT (MaxMessageTermination_call s ms)"
| "call rt (TextMentionT s) ms = lift_outcome TextMentionT (TextMentionTermination_call s ms)"
| "call rt (FunctionalT s) ms = lift_outcome FunctionalT (FunctionalTermination_call s ms)"
| "call rt (TokenUsageT s) ms = lift_outcome TokenUsageT (TokenUsageTermination_call s ms)"
| "call rt (HandoffT s) ms = lift_outcome HandoffT (HandoffTermination_call s ms)"
| "call rt (TimeoutT s) ms = lift_outcome TimeoutT (TimeoutTermination_call rt s ms)"
| "call rt (ExternalT s) ms = lift_outcome ExternalT (ExternalTermination_call s ms)"
| "call rt (SourceMatchT s) ms = lift_outcome SourceMatchT (SourceMatchTermination_call s ms)"
| "call rt (TextMessageT s) ms = lift_outcome TextMessageT (TextMessageTermination_call s ms)"
| "call rt (FunctionCallT s) ms = lift_outcome FunctionCallT (FunctionCallTermination_call s ms)"

fun reset :: "runtime \<Rightarrow> condition \<Rightarrow> condition" where
  "reset rt (StopMessageT s) = StopMessageT (StopMessageTermination_reset s)"
| "reset rt (MaxMessageT s) = MaxMessageT (MaxMessageTermination_reset s)"
| "reset rt (TextMentionT s) = TextMentionT (TextMentionTermination_reset s)"
| "reset rt (FunctionalT s) = FunctionalT (FunctionalTermination_reset s)"
| "reset rt (TokenUsageT s) = TokenUsageT (TokenUsageTermination_reset s)"
| "reset rt (HandoffT s) = HandoffT (HandoffTermination_reset s)"
| "reset rt (TimeoutT s) = TimeoutT (TimeoutTermination_reset rt s)"
| "reset rt (ExternalT s) = ExternalT (ExternalTermination_reset s)"
| "reset rt (SourceMatchT s) = SourceMatchT (SourceMatchTermination_reset s)"
| "reset rt (TextMessageT s) = TextMessageT (TextMessageTermination_reset s)"
| "reset rt (FunctionCallT s) = FunctionCallT (FunctionCallTermination_reset s)"

subsection \<open>Construction\<close>

text \<open>The constructor calls a client can write, and what each returns. Only
  \<^verbatim>\<open>TokenUsageTermination.__init__\<close> can raise; only \<^verbatim>\<open>TimeoutTermination.__init__\<close> reads
  the clock.\<close>

datatype constructor_call =
    New_StopMessageTermination
  | New_MaxMessageTermination int bool
  | New_TextMentionTermination string "string list option"
  | New_FunctionalTermination "message list \<Rightarrow> exn + bool"
  | New_TokenUsageTermination "int option" "int option" "int option"
  | New_HandoffTermination string
  | New_TimeoutTermination number
  | New_ExternalTermination
  | New_SourceMatchTermination "string list"
  | New_TextMessageTermination "string option"
  | New_FunctionCallTermination string

fun construct :: "runtime \<Rightarrow> constructor_call \<Rightarrow> exn + condition" where
  "construct rt New_StopMessageTermination = Inr (StopMessageT StopMessageTermination_init)"
| "construct rt (New_MaxMessageTermination mx inc) =
     Inr (MaxMessageT (MaxMessageTermination_init mx inc))"
| "construct rt (New_TextMentionTermination text sources) =
     Inr (TextMentionT (TextMentionTermination_init text sources))"
| "construct rt (New_FunctionalTermination f) = Inr (FunctionalT (FunctionalTermination_init f))"
| "construct rt (New_TokenUsageTermination mt mp mc) =
     (case TokenUsageTermination_init mt mp mc of
        Inl e \<Rightarrow> Inl e
      | Inr s \<Rightarrow> Inr (TokenUsageT s))"
| "construct rt (New_HandoffTermination target) = Inr (HandoffT (HandoffTermination_init target))"
| "construct rt (New_TimeoutTermination secs) = Inr (TimeoutT (TimeoutTermination_init rt secs))"
| "construct rt New_ExternalTermination = Inr (ExternalT ExternalTermination_init)"
| "construct rt (New_SourceMatchTermination sources) =
     Inr (SourceMatchT (SourceMatchTermination_init sources))"
| "construct rt (New_TextMessageTermination src) =
     Inr (TextMessageT (TextMessageTermination_init src))"
| "construct rt (New_FunctionCallTermination name) =
     Inr (FunctionCallT (FunctionCallTermination_init name))"

subsection \<open>Serialization\<close>

text \<open>The configuration classes, one constructor per class with the fields of the class.
  \<^verbatim>\<open>FunctionalTermination\<close> is not a component and has no configuration. The field
  \<^verbatim>\<open>timeout_seconds: float\<close> of \<^verbatim>\<open>TimeoutTerminationConfig\<close> is validated by the model class,
  which turns an \<^verbatim>\<open>int\<close> duration into the \<^verbatim>\<open>float\<close> of the same value.\<close>

datatype config =
    StopMessageTerminationConfig
  | MaxMessageTerminationConfig int bool
  | TextMentionTerminationConfig string
  | TokenUsageTerminationConfig "int option" "int option" "int option"
  | HandoffTerminationConfig string
  | TimeoutTerminationConfig real
  | ExternalTerminationConfig
  | SourceMatchTerminationConfig "string list"
  | TextMessageTerminationConfig "string option"
  | FunctionCallTerminationConfig string

fun to_config :: "condition \<Rightarrow> config option" where
  "to_config (StopMessageT s) = Some StopMessageTerminationConfig"
| "to_config (MaxMessageT s) =
     Some (MaxMessageTerminationConfig (max_messages s) (include_agent_event s))"
| "to_config (TextMentionT s) = Some (TextMentionTerminationConfig (termination_text s))"
| "to_config (FunctionalT s) = None"
| "to_config (TokenUsageT s) =
     Some (TokenUsageTerminationConfig (max_total_token s) (max_prompt_token s)
             (max_completion_token s))"
| "to_config (HandoffT s) = Some (HandoffTerminationConfig (handoff_target s))"
| "to_config (TimeoutT s) = Some (TimeoutTerminationConfig (number_value (timeout_seconds s)))"
| "to_config (ExternalT s) = Some ExternalTerminationConfig"
| "to_config (SourceMatchT s) = Some (SourceMatchTerminationConfig (match_sources s))"
| "to_config (TextMessageT s) = Some (TextMessageTerminationConfig (textmsg_source s))"
| "to_config (FunctionCallT s) = Some (FunctionCallTerminationConfig (function_name s))"

fun from_config :: "runtime \<Rightarrow> config \<Rightarrow> exn + condition" where
  "from_config rt StopMessageTerminationConfig = Inr (StopMessageT StopMessageTermination_init)"
| "from_config rt (MaxMessageTerminationConfig mx inc) =
     Inr (MaxMessageT (MaxMessageTermination_init mx inc))"
| "from_config rt (TextMentionTerminationConfig text) =
     Inr (TextMentionT (TextMentionTermination_init text None))"
| "from_config rt (TokenUsageTerminationConfig mt mp mc) =
     (case TokenUsageTermination_init mt mp mc of
        Inl e \<Rightarrow> Inl e
      | Inr s \<Rightarrow> Inr (TokenUsageT s))"
| "from_config rt (HandoffTerminationConfig target) = Inr (HandoffT (HandoffTermination_init target))"
| "from_config rt (TimeoutTerminationConfig secs) =
     Inr (TimeoutT (TimeoutTermination_init rt (FloatNum secs)))"
| "from_config rt ExternalTerminationConfig = Inr (ExternalT ExternalTermination_init)"
| "from_config rt (SourceMatchTerminationConfig sources) =
     Inr (SourceMatchT (SourceMatchTermination_init sources))"
| "from_config rt (TextMessageTerminationConfig src) =
     Inr (TextMessageT (TextMessageTermination_init src))"
| "from_config rt (FunctionCallTerminationConfig name) =
     Inr (FunctionCallT (FunctionCallTermination_init name))"

subsection \<open>Driving a condition\<close>

text \<open>What a caller can do with an instance it holds: evaluate a batch, reset, and (on an
  \<^verbatim>\<open>ExternalTermination\<close> only) \<^verbatim>\<open>set()\<close>. Each action yields what the caller sees, the
  returned value or the exception, and the instance afterwards. Every \<^verbatim>\<open>raise\<close> of
  \<^verbatim>\<open>__call__\<close> comes before any assignment, so a failed call leaves the instance as it was.\<close>

datatype action = Evaluate runtime "message list" | Reset runtime | Set

fun perform :: "action \<Rightarrow> condition \<Rightarrow> (exn + message option) \<times> condition" where
  "perform (Evaluate rt ms) p =
     (case call rt p ms of Inl e \<Rightarrow> (Inl e, p) | Inr (d, p') \<Rightarrow> (Inr d, p'))"
| "perform (Reset rt) p = (Inr None, reset rt p)"
| "perform Set (ExternalT s) = (Inr None, ExternalT (ExternalTermination_set s))"
| "perform Set p = (Inl AttributeError, p)"

fun run :: "action list \<Rightarrow> condition \<Rightarrow> (exn + message option) list \<times> condition" where
  "run [] p = ([], p)"
| "run (a # as) p =
     (let (r, p') = perform a p; (rs, p'') = run as p' in (r # rs, p''))"

fun is_Reset :: "action \<Rightarrow> bool" where
  "is_Reset (Reset rt) = True"
| "is_Reset a = False"

section \<open>Notions of the specification\<close>

text \<open>The number of qualifying messages of a batch for the message-count budget: all
  messages if agent events are included, otherwise only the chat messages.\<close>

definition qualifying_count :: "bool \<Rightarrow> message list \<Rightarrow> nat" where
  "qualifying_count inc ms = (if inc then length ms else length (filter is_BaseChatMessage ms))"

text \<open>The usage records a batch carries, in order, and their token sums.\<close>

definition usage_records :: "message list \<Rightarrow> RequestUsage list" where
  "usage_records ms = List.map_filter models_usage ms"

definition prompt_sum :: "message list \<Rightarrow> int" where
  "prompt_sum ms = sum_list (map prompt_tokens (usage_records ms))"

definition completion_sum :: "message list \<Rightarrow> int" where
  "completion_sum ms = sum_list (map completion_tokens (usage_records ms))"

text \<open>The stateless-trigger family and, for each member, the messages that qualify
  (section 4.2 of the specification).\<close>

fun stateless_trigger :: "condition \<Rightarrow> bool" where
  "stateless_trigger (StopMessageT s) = True"
| "stateless_trigger (TextMentionT s) = True"
| "stateless_trigger (HandoffT s) = True"
| "stateless_trigger (SourceMatchT s) = True"
| "stateless_trigger (TextMessageT s) = True"
| "stateless_trigger (FunctionCallT s) = True"
| "stateless_trigger p = False"

fun qualifies :: "condition \<Rightarrow> message \<Rightarrow> bool" where
  "qualifies (StopMessageT s) m = (kind m = StopMessage)"
| "qualifies (TextMentionT s) m =
     ((case mention_sources s of None \<Rightarrow> True | Some srcs \<Rightarrow> source m \<in> set srcs)
      \<and> str_contains (termination_text s) (to_text m))"
| "qualifies (HandoffT s) m = (kind m = HandoffMessage (handoff_target s))"
| "qualifies (SourceMatchT s) m = (source m \<in> set (match_sources s))"
| "qualifies (TextMessageT s) m =
     (kind m = TextMessage \<and> (textmsg_source s = None \<or> textmsg_source s = Some (source m)))"
| "qualifies (FunctionCallT s) m =
     (case kind m of ToolCallExecutionEvent names \<Rightarrow> function_name s \<in> set names | _ \<Rightarrow> False)"
| "qualifies p m = False"

text \<open>What a member of the family returns for the qualifying message that decides (the
  reason of section 4.2, under the name of the condition), and the instance with its
  triggered flag set.\<close>

fun stop_directive :: "condition \<Rightarrow> message \<Rightarrow> message" where
  "stop_directive (StopMessageT s) m =
     new_StopMessage ''Stop message received'' ''StopMessageTermination''"
| "stop_directive (TextMentionT s) m =
     new_StopMessage (''Text '' @ [CHR 0x27] @ termination_text s @ [CHR 0x27] @ '' mentioned'')
       ''TextMentionTermination''"
| "stop_directive (HandoffT s) m =
     new_StopMessage (''Handoff to '' @ handoff_target s @ '' from '' @ source m @ '' detected.'')
       ''HandoffTermination''"
| "stop_directive (SourceMatchT s) m =
     new_StopMessage ([CHR 0x27] @ source m @ [CHR 0x27] @ '' answered'') ''SourceMatchTermination''"
| "stop_directive (TextMessageT s) m =
     new_StopMessage (''Text message received from '' @ [CHR 0x27] @ source m @ [CHR 0x27])
       ''TextMessageTermination''"
| "stop_directive (FunctionCallT s) m =
     new_StopMessage (''Function '' @ [CHR 0x27] @ function_name s @ [CHR 0x27] @ '' was executed.'')
       ''FunctionCallTermination''"
| "stop_directive p m = new_StopMessage [] []"

fun set_triggered :: "condition \<Rightarrow> condition" where
  "set_triggered (StopMessageT s) = StopMessageT (s\<lparr>stop_terminated := True\<rparr>)"
| "set_triggered (TextMentionT s) = TextMentionT (s\<lparr>mention_terminated := True\<rparr>)"
| "set_triggered (HandoffT s) = HandoffT (s\<lparr>handoff_terminated := True\<rparr>)"
| "set_triggered (SourceMatchT s) = SourceMatchT (s\<lparr>match_terminated := True\<rparr>)"
| "set_triggered (TextMessageT s) = TextMessageT (s\<lparr>textmsg_terminated := True\<rparr>)"
| "set_triggered (FunctionCallT s) = FunctionCallT (s\<lparr>call_terminated := True\<rparr>)"
| "set_triggered p = p"

text \<open>Concrete inputs for the examples: a plain text message, a message carrying a usage
  record, and two clock readings.\<close>

definition text_msg :: "string \<Rightarrow> string \<Rightarrow> message" where
  "text_msg src c = \<lparr>source = src, kind = TextMessage, to_text = c, models_usage = None\<rparr>"

definition usage_msg :: "int \<Rightarrow> int \<Rightarrow> message" where
  "usage_msg p c =
     \<lparr>source = ''assistant'', kind = TextMessage, to_text = ''ok'',
      models_usage = Some \<lparr>prompt_tokens = p, completion_tokens = c\<rparr>\<rparr>"

definition runtime0 :: runtime where
  "runtime0 = \<lparr>monotonic = 0, float_str = (\<lambda>x. ''0.0'')\<rparr>"

definition runtime1 :: runtime where
  "runtime1 = \<lparr>monotonic = 1, float_str = (\<lambda>x. ''0.0'')\<rparr>"

section \<open>The built-ins\<close>

text \<open>The substring test finds exactly the contiguous occurrences.\<close>

lemma str_contains_iff: "str_contains sub s \<longleftrightarrow> (\<exists>p q. s = p @ sub @ q)"
proof (induction s)
  case Nil
  show ?case by auto
next
  case (Cons c cs)
  have "take (length sub) (c # cs) = sub \<longleftrightarrow> (\<exists>q. c # cs = sub @ q)"
    by (metis append_eq_conv_conj append_take_drop_id)
  moreover have "(\<exists>p q. c # cs = p @ sub @ q) \<longleftrightarrow>
      (\<exists>q. c # cs = sub @ q) \<or> (\<exists>p q. cs = p @ sub @ q)"
  proof
    assume "\<exists>p q. c # cs = p @ sub @ q"
    then obtain p q where pq: "c # cs = p @ sub @ q" by blast
    show "(\<exists>q. c # cs = sub @ q) \<or> (\<exists>p q. cs = p @ sub @ q)"
    proof (cases p)
      case Nil
      with pq show ?thesis by auto
    next
      case (Cons x p')
      with pq have "cs = p' @ sub @ q" by simp
      then show ?thesis by blast
    qed
  next
    assume "(\<exists>q. c # cs = sub @ q) \<or> (\<exists>p q. cs = p @ sub @ q)"
    then show "\<exists>p q. c # cs = p @ sub @ q"
    proof
      assume "\<exists>q. c # cs = sub @ q"
      then obtain q where "c # cs = [] @ sub @ q" by auto
      then show ?thesis by blast
    next
      assume "\<exists>p q. cs = p @ sub @ q"
      then obtain p q where "c # cs = (c # p) @ sub @ q" by auto
      then show ?thesis by blast
    qed
  qed
  ultimately show ?case using Cons by simp
qed

lemma str_int_small:
  "str_int 1 = ''1''" "str_int 2 = ''2''" "str_int 3 = ''3''" "str_int 5 = ''5''"
  by (simp_all add: str_int_def str_nat.simps digit_char_def)

section \<open>The message-count budget\<close>

lemma filter_qualifying:
  "length (filter (\<lambda>m. inc \<or> is_BaseChatMessage m) ms) = qualifying_count inc ms"
  by (simp add: qualifying_count_def)

lemma MaxMessage_step:
  assumes "\<not> MaxMessageTermination_terminated s"
  shows "MaxMessageTermination_call s ms =
     (let n = message_count s + int (qualifying_count (include_agent_event s) ms) in
      Inr (if n \<ge> max_messages s
           then Some (new_StopMessage
                       (''Maximum number of messages '' @ str_int (max_messages s) @
                        '' reached, current message count: '' @ str_int n)
                       ''MaxMessageTermination'')
           else None, s\<lparr>message_count := n\<rparr>))"
  using assms by (simp add: MaxMessageTermination_call_def Let_def filter_qualifying)

lemma MaxMessage_three_turns:
  assumes "inc \<or> is_BaseChatMessage m1" "inc \<or> is_BaseChatMessage m2" "inc \<or> is_BaseChatMessage m3"
  shows "fst (run [Evaluate rt1 [m1], Evaluate rt2 [m2], Evaluate rt3 [m3]]
               (MaxMessageT (MaxMessageTermination_init 3 inc))) =
         [Inr None, Inr None,
          Inr (Some (new_StopMessage
                       ''Maximum number of messages 3 reached, current message count: 3''
                       ''MaxMessageTermination''))]"
  using assms
  by (simp add: MaxMessageTermination_init_def MaxMessageTermination_call_def
      MaxMessageTermination_terminated_def lift_outcome_def str_int_small)

text \<open>
  Claim C5. An evaluation of a message-count budget that has not fired adds the number of
  qualifying messages of the batch to the counter (all messages if agent events are
  included, otherwise the chat messages only), returns nothing while the new total is below
  the ceiling and a stop message once it reaches or exceeds it; the stop message reports the
  total after the increment, unclamped. With ceiling 3 and one qualifying message per call
  the first two calls return nothing and the third reports a count of 3; a batch of five
  chat messages makes a fresh budget of 3 report a count of 5.
\<close>

theorem message_count_budget:
  "(\<not> MaxMessageTermination_terminated s \<longrightarrow>
      MaxMessageTermination_call s ms =
        (let n = message_count s + int (qualifying_count (include_agent_event s) ms) in
         Inr (if n \<ge> max_messages s
              then Some (new_StopMessage
                          (''Maximum number of messages '' @ str_int (max_messages s) @
                           '' reached, current message count: '' @ str_int n)
                          ''MaxMessageTermination'')
              else None, s\<lparr>message_count := n\<rparr>)))
   \<and> ((inc \<or> is_BaseChatMessage m1) \<and> (inc \<or> is_BaseChatMessage m2) \<and>
        (inc \<or> is_BaseChatMessage m3) \<longrightarrow>
        fst (run [Evaluate rt1 [m1], Evaluate rt2 [m2], Evaluate rt3 [m3]]
               (MaxMessageT (MaxMessageTermination_init 3 inc))) =
         [Inr None, Inr None,
          Inr (Some (new_StopMessage
                       ''Maximum number of messages 3 reached, current message count: 3''
                       ''MaxMessageTermination''))])
   \<and> MaxMessageTermination_call (MaxMessageTermination_init 3 False)
        [text_msg ''a'' ''1'', text_msg ''b'' ''2'', text_msg ''a'' ''3'', text_msg ''b'' ''4'',
         text_msg ''a'' ''5''] =
       Inr (Some (new_StopMessage
                    ''Maximum number of messages 3 reached, current message count: 5''
                    ''MaxMessageTermination''),
            \<lparr>max_messages = 3, message_count = 5, include_agent_event = False\<rparr>)"
proof (intro conjI impI)
  assume "\<not> MaxMessageTermination_terminated s"
  then show "MaxMessageTermination_call s ms =
        (let n = message_count s + int (qualifying_count (include_agent_event s) ms) in
         Inr (if n \<ge> max_messages s
              then Some (new_StopMessage
                          (''Maximum number of messages '' @ str_int (max_messages s) @
                           '' reached, current message count: '' @ str_int n)
                          ''MaxMessageTermination'')
              else None, s\<lparr>message_count := n\<rparr>))"
    by (rule MaxMessage_step)
next
  assume "(inc \<or> is_BaseChatMessage m1) \<and> (inc \<or> is_BaseChatMessage m2) \<and>
        (inc \<or> is_BaseChatMessage m3)"
  then show "fst (run [Evaluate rt1 [m1], Evaluate rt2 [m2], Evaluate rt3 [m3]]
               (MaxMessageT (MaxMessageTermination_init 3 inc))) =
         [Inr None, Inr None,
          Inr (Some (new_StopMessage
                       ''Maximum number of messages 3 reached, current message count: 3''
                       ''MaxMessageTermination''))]"
    using MaxMessage_three_turns by blast
next
  show "MaxMessageTermination_call (MaxMessageTermination_init 3 False)
        [text_msg ''a'' ''1'', text_msg ''b'' ''2'', text_msg ''a'' ''3'', text_msg ''b'' ''4'',
         text_msg ''a'' ''5''] =
       Inr (Some (new_StopMessage
                    ''Maximum number of messages 3 reached, current message count: 5''
                    ''MaxMessageTermination''),
            \<lparr>max_messages = 3, message_count = 5, include_agent_event = False\<rparr>)"
    by (simp add: MaxMessageTermination_init_def MaxMessageTermination_call_def
      MaxMessageTermination_terminated_def text_msg_def is_BaseChatMessage_def str_int_small)
qed

theorem message_count_budget_witness:
  "\<not> MaxMessageTermination_terminated (MaxMessageTermination_init 3 False)
   \<and> MaxMessageTermination_call (MaxMessageTermination_init 3 False) [text_msg ''a'' ''hi''] =
       Inr (None, \<lparr>max_messages = 3, message_count = 1, include_agent_event = False\<rparr>)
   \<and> is_BaseChatMessage (text_msg ''a'' ''hi'')
   \<and> fst (run [Evaluate runtime0 [text_msg ''a'' ''hi''], Evaluate runtime0 [text_msg ''a'' ''hi''],
               Evaluate runtime0 [text_msg ''a'' ''hi'']]
               (MaxMessageT (MaxMessageTermination_init 3 False))) =
         [Inr None, Inr None,
          Inr (Some (new_StopMessage
                       ''Maximum number of messages 3 reached, current message count: 3''
                       ''MaxMessageTermination''))]"
proof -
  let ?m = "text_msg ''a'' ''hi''"
  note budget = message_count_budget [of "MaxMessageTermination_init 3 False" "[?m]"
      False ?m ?m ?m runtime0 runtime0 runtime0]
  have fresh: "\<not> MaxMessageTermination_terminated (MaxMessageTermination_init 3 False)"
    by (simp add: MaxMessageTermination_init_def MaxMessageTermination_terminated_def)
  have chat: "is_BaseChatMessage ?m"
    by (simp add: text_msg_def is_BaseChatMessage_def)
  from budget fresh have
    "MaxMessageTermination_call (MaxMessageTermination_init 3 False) [?m] =
       Inr (None, \<lparr>max_messages = 3, message_count = 1, include_agent_event = False\<rparr>)"
    using chat by (simp add: MaxMessageTermination_init_def qualifying_count_def)
  moreover from budget chat have
    "fst (run [Evaluate runtime0 [?m], Evaluate runtime0 [?m], Evaluate runtime0 [?m]]
               (MaxMessageT (MaxMessageTermination_init 3 False))) =
         [Inr None, Inr None,
          Inr (Some (new_StopMessage
                       ''Maximum number of messages 3 reached, current message count: 3''
                       ''MaxMessageTermination''))]"
    by blast
  ultimately show ?thesis using fresh chat by blast
qed

section \<open>The one-shot state machine\<close>

lemmas call_defs =
  StopMessageTermination_call_def MaxMessageTermination_call_def TextMentionTermination_call_def
  FunctionalTermination_call_def TokenUsageTermination_call_def HandoffTermination_call_def
  TimeoutTermination_call_def ExternalTermination_call_def SourceMatchTermination_call_def
  TextMessageTermination_call_def FunctionCallTermination_call_def

lemmas reset_defs =
  StopMessageTermination_reset_def MaxMessageTermination_reset_def TextMentionTermination_reset_def
  FunctionalTermination_reset_def TokenUsageTermination_reset_def HandoffTermination_reset_def
  TimeoutTermination_reset_def ExternalTermination_reset_def SourceMatchTermination_reset_def
  TextMessageTermination_reset_def FunctionCallTermination_reset_def

lemmas init_defs =
  StopMessageTermination_init_def MaxMessageTermination_init_def TextMentionTermination_init_def
  FunctionalTermination_init_def TokenUsageTermination_init_def HandoffTermination_init_def
  TimeoutTermination_init_def ExternalTermination_init_def SourceMatchTermination_init_def
  TextMessageTermination_init_def FunctionCallTermination_init_def

lemma lift_outcome_Inr:
  "lift_outcome C r = Inr (d, p') \<longleftrightarrow> (\<exists>s'. r = Inr (d, s') \<and> p' = C s')"
  by (auto simp: lift_outcome_def split: sum.splits)

lemma lift_outcome_Inl [simp]:
  "lift_outcome C (Inl e) = Inl e"
  by (simp add: lift_outcome_def)

lemma lift_outcome_Inr_pair [simp]:
  "lift_outcome C (Inr (d, s)) = Inr (d, C s)"
  by (simp add: lift_outcome_def)

subsection \<open>A fired loop leaves the flag set\<close>

lemma StopMessage_loop_fired:
  "StopMessageTermination_loop s ms = (Some d, s') \<Longrightarrow> stop_terminated s'"
  by (induction ms) (auto split: if_splits)

lemma TextMention_loop_fired:
  "TextMentionTermination_loop s ms = (Some d, s') \<Longrightarrow> mention_terminated s'"
  by (induction ms) (auto split: if_splits)

lemma Handoff_loop_fired:
  "HandoffTermination_loop s ms = (Some d, s') \<Longrightarrow> handoff_terminated s'"
  by (induction ms) (auto split: if_splits)

lemma SourceMatch_loop_fired:
  "SourceMatchTermination_loop s ms = (Some d, s') \<Longrightarrow> match_terminated s'"
  by (induction ms) (auto split: if_splits)

lemma TextMessage_loop_fired:
  "TextMessageTermination_loop s ms = (Some d, s') \<Longrightarrow> textmsg_terminated s'"
  by (induction ms) (auto split: if_splits)

lemma FunctionCall_executions_fired:
  "FunctionCallTermination_executions s names = Some (Some d, s') \<Longrightarrow> call_terminated s'"
  by (induction names) (auto split: if_splits)

lemma FunctionCall_loop_fired:
  "FunctionCallTermination_loop s ms = (Some d, s') \<Longrightarrow> call_terminated s'"
  by (induction ms)
     (auto split: message_kind.splits option.splits dest: FunctionCall_executions_fired)

lemma call_fired_terminated:
  assumes "call rt p ms = Inr (Some d, p')"
  shows "terminated p'"
proof (cases p)
  case (StopMessageT s)
  with assms show ?thesis
    by (auto simp: lift_outcome_Inr StopMessageTermination_call_def
        split: if_splits dest: StopMessage_loop_fired)
next
  case (MaxMessageT s)
  with assms show ?thesis
    by (auto simp: lift_outcome_Inr MaxMessageTermination_call_def Let_def
        MaxMessageTermination_terminated_def split: if_splits)
next
  case (TextMentionT s)
  with assms show ?thesis
    by (auto simp: lift_outcome_Inr TextMentionTermination_call_def
        split: if_splits dest: TextMention_loop_fired)
next
  case (FunctionalT s)
  with assms show ?thesis
    by (auto simp: lift_outcome_Inr FunctionalTermination_call_def split: if_splits sum.splits)
next
  case (TokenUsageT s)
  with assms show ?thesis
    by (auto simp: lift_outcome_Inr TokenUsageTermination_call_def Let_def split: if_splits)
next
  case (HandoffT s)
  with assms show ?thesis
    by (auto simp: lift_outcome_Inr HandoffTermination_call_def
        split: if_splits dest: Handoff_loop_fired)
next
  case (TimeoutT s)
  with assms show ?thesis
    by (auto simp: lift_outcome_Inr TimeoutTermination_call_def split: if_splits)
next
  case (ExternalT s)
  with assms show ?thesis
    by (auto simp: lift_outcome_Inr ExternalTermination_call_def split: if_splits)
next
  case (SourceMatchT s)
  with assms show ?thesis
    by (auto simp: lift_outcome_Inr SourceMatchTermination_call_def
        split: if_splits dest: SourceMatch_loop_fired)
next
  case (TextMessageT s)
  with assms show ?thesis
    by (auto simp: lift_outcome_Inr TextMessageTermination_call_def
        split: if_splits dest: TextMessage_loop_fired)
next
  case (FunctionCallT s)
  with assms show ?thesis
    by (auto simp: lift_outcome_Inr FunctionCallTermination_call_def
        split: if_splits dest: FunctionCall_loop_fired)
qed

lemma call_terminated_raises:
  "terminated p \<Longrightarrow> call rt p ms = Inl TerminatedException"
  by (cases p) (simp_all add: call_defs)

lemma perform_keeps_terminated:
  assumes "terminated p" "\<not> is_Reset a"
  shows "terminated (snd (perform a p))"
proof (cases a)
  case (Evaluate rt ms)
  with assms show ?thesis by (simp add: call_terminated_raises)
next
  case (Reset rt)
  with assms show ?thesis by simp
next
  case Set
  with assms show ?thesis by (cases p) (simp_all add: ExternalTermination_set_def)
qed

lemma run_keeps_terminated:
  "terminated p \<Longrightarrow> \<forall>a\<in>set as. \<not> is_Reset a \<Longrightarrow> terminated (snd (run as p))"
proof (induction as arbitrary: p)
  case Nil
  then show ?case by simp
next
  case (Cons a as)
  then have "terminated (snd (perform a p))"
    by (simp add: perform_keeps_terminated)
  with Cons have "terminated (snd (run as (snd (perform a p))))" by simp
  then show ?case by (simp add: split_beta)
qed

text \<open>
  Claim C2. One-shot invariant: once an evaluation of any condition has returned a stop
  message, every later evaluation of the same instance raises \<open>TerminatedException\<close>,
  whatever batch it is given and whatever the clock reads, as long as no reset intervenes
  (further evaluations and calls of \<^verbatim>\<open>set()\<close> may).
\<close>

theorem one_shot:
  assumes "call rt p ms = Inr (Some d, p')" and "\<forall>a\<in>set as. \<not> is_Reset a"
  shows "call rt' (snd (run as p')) ms' = Inl TerminatedException"
  using assms run_keeps_terminated call_fired_terminated call_terminated_raises by blast

theorem one_shot_witness:
  "call runtime0 (ExternalT (ExternalTermination_set ExternalTermination_init)) [] =
     Inr (Some (new_StopMessage ''External termination requested'' ''ExternalTermination''),
          ExternalT \<lparr>external_terminated = True, setted = True\<rparr>)
   \<and> \<not> is_Reset Set \<and> \<not> is_Reset (Evaluate runtime1 [])
   \<and> call runtime1
        (snd (run [Set, Evaluate runtime1 []]
                (ExternalT \<lparr>external_terminated = True, setted = True\<rparr>)))
        [text_msg ''a'' ''hi''] = Inl TerminatedException"
proof -
  have fired: "call runtime0 (ExternalT (ExternalTermination_set ExternalTermination_init)) [] =
     Inr (Some (new_StopMessage ''External termination requested'' ''ExternalTermination''),
          ExternalT \<lparr>external_terminated = True, setted = True\<rparr>)"
    by (simp add: ExternalTermination_call_def ExternalTermination_set_def
        ExternalTermination_init_def)
  have no_reset: "\<forall>a\<in>set [Set, Evaluate runtime1 []]. \<not> is_Reset a"
    by simp
  from one_shot [OF fired no_reset, of runtime1 "[text_msg ''a'' ''hi'']"] fired
  show ?thesis by simp
qed

section \<open>A message-count budget with a ceiling that is not positive\<close>

lemma MaxMessage_nonpositive_stuck:
  assumes "mx \<le> 0"
  shows "run as (MaxMessageT (MaxMessageTermination_init mx inc)) =
           (map (\<lambda>a. case a of Evaluate rt ms \<Rightarrow> Inl TerminatedException
                              | Reset rt \<Rightarrow> Inr None | Set \<Rightarrow> Inl AttributeError) as,
            MaxMessageT (MaxMessageTermination_init mx inc))"
proof (induction as)
  case Nil
  show ?case by simp
next
  case (Cons a as)
  have "perform a (MaxMessageT (MaxMessageTermination_init mx inc)) =
          (case a of Evaluate rt ms \<Rightarrow> Inl TerminatedException
                              | Reset rt \<Rightarrow> Inr None | Set \<Rightarrow> Inl AttributeError,
           MaxMessageT (MaxMessageTermination_init mx inc))"
    using assms
    by (cases a) (simp_all add: MaxMessageTermination_init_def MaxMessageTermination_call_def
        MaxMessageTermination_terminated_def MaxMessageTermination_reset_def)
  with Cons show ?case by simp
qed

text \<open>
  Claim C9. \<^verbatim>\<open>MaxMessageTermination.__init__\<close> validates nothing: for a ceiling \<open>mx \<le> 0\<close> the
  constructor returns an instance, which is triggered from the start and after every reset;
  whatever is done with it, every evaluation raises \<open>TerminatedException\<close> and no action
  ever returns a stop message.
\<close>

theorem nonpositive_ceiling_never_fires:
  assumes "mx \<le> 0"
  shows "construct rt0 (New_MaxMessageTermination mx inc) =
           Inr (MaxMessageT (MaxMessageTermination_init mx inc))
    \<and> terminated (MaxMessageT (MaxMessageTermination_init mx inc))
    \<and> terminated (reset rt (snd (run as (MaxMessageT (MaxMessageTermination_init mx inc)))))
    \<and> call rt' (snd (run as (MaxMessageT (MaxMessageTermination_init mx inc)))) ms =
        Inl TerminatedException
    \<and> (\<forall>d. Inr (Some d) \<notin> set (fst (run as (MaxMessageT (MaxMessageTermination_init mx inc)))))"
proof -
  let ?p = "MaxMessageT (MaxMessageTermination_init mx inc)"
  have t: "terminated ?p"
    using assms by (simp add: MaxMessageTermination_init_def MaxMessageTermination_terminated_def)
  have r: "reset rt ?p = ?p"
    by (simp add: MaxMessageTermination_init_def MaxMessageTermination_reset_def)
  have stuck: "snd (run as ?p) = ?p"
    by (simp add: MaxMessage_nonpositive_stuck [OF assms])
  have raises: "call rt' ?p ms = Inl TerminatedException"
    using t by (rule call_terminated_raises)
  have "Inr (Some d) \<notin> set (fst (run as ?p))" for d
    by (auto simp: MaxMessage_nonpositive_stuck [OF assms] split: action.splits)
  then show ?thesis
    using t r raises stuck construct.simps(2) [of rt0 mx inc] by metis
qed

theorem nonpositive_ceiling_never_fires_witness:
  "(0::int) \<le> 0
    \<and> construct runtime0 (New_MaxMessageTermination 0 False) =
        Inr (MaxMessageT (MaxMessageTermination_init 0 False))
    \<and> terminated (MaxMessageT (MaxMessageTermination_init 0 False))
    \<and> terminated (reset runtime0 (snd (run [Evaluate runtime0 [text_msg ''a'' ''hi''], Reset runtime1]
         (MaxMessageT (MaxMessageTermination_init 0 False)))))
    \<and> call runtime1 (snd (run [Evaluate runtime0 [text_msg ''a'' ''hi''], Reset runtime1]
         (MaxMessageT (MaxMessageTermination_init 0 False)))) [text_msg ''a'' ''hi''] =
        Inl TerminatedException
    \<and> fst (run [Evaluate runtime0 [text_msg ''a'' ''hi''], Reset runtime1]
         (MaxMessageT (MaxMessageTermination_init 0 False))) = [Inl TerminatedException, Inr None]"
proof -
  have le: "(0::int) \<le> 0" by simp
  have trace: "fst (run [Evaluate runtime0 [text_msg ''a'' ''hi''], Reset runtime1]
         (MaxMessageT (MaxMessageTermination_init 0 False))) = [Inl TerminatedException, Inr None]"
    by (simp add: MaxMessageTermination_init_def MaxMessageTermination_call_def
        MaxMessageTermination_terminated_def MaxMessageTermination_reset_def)
  from nonpositive_ceiling_never_fires [OF le, of runtime0 False runtime0
      "[Evaluate runtime0 [text_msg ''a'' ''hi''], Reset runtime1]" runtime1 "[text_msg ''a'' ''hi'']"]
    trace le
  show ?thesis by blast
qed

section \<open>Construction of a token-usage budget\<close>

lemma TokenUsage_perform_stays:
  "\<exists>r s'. perform a (TokenUsageT s) = (r, TokenUsageT s') \<and> r \<noteq> Inl ValueError"
  by (cases a) (auto simp: TokenUsageTermination_call_def Let_def split: if_splits)

lemma TokenUsage_run_no_ValueError:
  "Inl ValueError \<notin> set (fst (run as (TokenUsageT s)))"
proof (induction as arbitrary: s)
  case Nil
  show ?case by simp
next
  case (Cons a as)
  obtain r s' where "perform a (TokenUsageT s) = (r, TokenUsageT s')" "r \<noteq> Inl ValueError"
    using TokenUsage_perform_stays by blast
  with Cons [of s'] show ?case by (simp add: split_beta)
qed

text \<open>
  Claim C4. A token-usage budget constructed with none of its three ceilings raises
  \<open>ValueError\<close>; with at least one ceiling the constructor returns an instance, and no
  evaluation, reset or other action on that instance ever raises \<open>ValueError\<close>.
\<close>

theorem token_budget_construction:
  "TokenUsageTermination_init None None None = Inl ValueError
   \<and> (mt \<noteq> None \<or> mp \<noteq> None \<or> mc \<noteq> None \<longrightarrow>
        (\<exists>s. TokenUsageTermination_init mt mp mc = Inr s
              \<and> Inl ValueError \<notin> set (fst (run as (TokenUsageT s)))))"
  by (simp add: TokenUsageTermination_init_def TokenUsage_run_no_ValueError)


theorem token_budget_construction_witness:
  "Some (10::int) \<noteq> None
   \<and> TokenUsageTermination_init None (Some 10) None =
       Inr \<lparr>max_total_token = None, max_prompt_token = Some 10, max_completion_token = None,
            total_token_count = 0, prompt_token_count = 0, completion_token_count = 0\<rparr>
   \<and> Inl ValueError \<notin> set (fst (run [Evaluate runtime0 [usage_msg 5 100], Reset runtime1]
        (TokenUsageT \<lparr>max_total_token = None, max_prompt_token = Some 10,
            max_completion_token = None,
            total_token_count = 0, prompt_token_count = 0, completion_token_count = 0\<rparr>)))"
proof -
  have given: "None \<noteq> None \<or> Some (10::int) \<noteq> None \<or> None \<noteq> None" by simp
  from token_budget_construction [of None "Some 10" None
      "[Evaluate runtime0 [usage_msg 5 100], Reset runtime1]"] given
  obtain s where "TokenUsageTermination_init None (Some 10) None = Inr s"
    and "Inl ValueError \<notin> set (fst (run [Evaluate runtime0 [usage_msg 5 100], Reset runtime1]
           (TokenUsageT s)))"
    by blast
  then show ?thesis by (simp add: TokenUsageTermination_init_def)
qed

section \<open>Reset\<close>

lemma StopMessage_loop_state:
  "snd (StopMessageTermination_loop s ms) = s \<or>
   snd (StopMessageTermination_loop s ms) = s\<lparr>stop_terminated := True\<rparr>"
  by (induction ms) auto

lemma TextMention_loop_state:
  "snd (TextMentionTermination_loop s ms) = s \<or>
   snd (TextMentionTermination_loop s ms) = s\<lparr>mention_terminated := True\<rparr>"
  by (induction ms) auto

lemma Handoff_loop_state:
  "snd (HandoffTermination_loop s ms) = s \<or>
   snd (HandoffTermination_loop s ms) = s\<lparr>handoff_terminated := True\<rparr>"
  by (induction ms) auto

lemma SourceMatch_loop_state:
  "snd (SourceMatchTermination_loop s ms) = s \<or>
   snd (SourceMatchTermination_loop s ms) = s\<lparr>match_terminated := True\<rparr>"
  by (induction ms) auto

lemma TextMessage_loop_state:
  "snd (TextMessageTermination_loop s ms) = s \<or>
   snd (TextMessageTermination_loop s ms) = s\<lparr>textmsg_terminated := True\<rparr>"
  by (induction ms) auto

lemma FunctionCall_executions_state:
  "FunctionCallTermination_executions s names = Some r \<Longrightarrow>
   snd r = s\<lparr>call_terminated := True\<rparr>"
  by (induction names) (auto split: if_splits)

lemma FunctionCall_loop_state:
  "snd (FunctionCallTermination_loop s ms) = s \<or>
   snd (FunctionCallTermination_loop s ms) = s\<lparr>call_terminated := True\<rparr>"
  by (induction ms)
     (auto split: message_kind.splits option.splits dest: FunctionCall_executions_state)

lemma TokenUsage_loop_config:
  "TokenUsageTermination_reset (TokenUsageTermination_loop s ms) = TokenUsageTermination_reset s"
  by (induction ms arbitrary: s)
     (auto simp: TokenUsageTermination_reset_def split: option.splits)

lemma call_then_reset:
  assumes "call rt' p ms = Inr (d, p')"
  shows "reset rt p' = reset rt p"
proof (cases p)
  case (StopMessageT s)
  with assms StopMessage_loop_state [of s ms] show ?thesis
    by (auto simp: lift_outcome_Inr StopMessageTermination_call_def
        StopMessageTermination_reset_def split: if_splits)
next
  case (MaxMessageT s)
  with assms show ?thesis
    by (auto simp: lift_outcome_Inr MaxMessageTermination_call_def Let_def
        MaxMessageTermination_reset_def split: if_splits)
next
  case (TextMentionT s)
  with assms TextMention_loop_state [of s ms] show ?thesis
    by (auto simp: lift_outcome_Inr TextMentionTermination_call_def
        TextMentionTermination_reset_def split: if_splits)
next
  case (FunctionalT s)
  with assms show ?thesis
    by (auto simp: lift_outcome_Inr FunctionalTermination_call_def
        FunctionalTermination_reset_def split: if_splits sum.splits)
next
  case (TokenUsageT s)
  with assms show ?thesis
    by (auto simp: lift_outcome_Inr TokenUsageTermination_call_def Let_def
        TokenUsage_loop_config split: if_splits)
next
  case (HandoffT s)
  with assms Handoff_loop_state [of s ms] show ?thesis
    by (auto simp: lift_outcome_Inr HandoffTermination_call_def
        HandoffTermination_reset_def split: if_splits)
next
  case (TimeoutT s)
  with assms show ?thesis
    by (auto simp: lift_outcome_Inr TimeoutTermination_call_def
        TimeoutTermination_reset_def split: if_splits)
next
  case (ExternalT s)
  with assms show ?thesis
    by (auto simp: lift_outcome_Inr ExternalTermination_call_def
        ExternalTermination_reset_def split: if_splits)
next
  case (SourceMatchT s)
  with assms SourceMatch_loop_state [of s ms] show ?thesis
    by (auto simp: lift_outcome_Inr SourceMatchTermination_call_def
        SourceMatchTermination_reset_def split: if_splits)
next
  case (TextMessageT s)
  with assms TextMessage_loop_state [of s ms] show ?thesis
    by (auto simp: lift_outcome_Inr TextMessageTermination_call_def
        TextMessageTermination_reset_def split: if_splits)
next
  case (FunctionCallT s)
  with assms FunctionCall_loop_state [of s ms] show ?thesis
    by (auto simp: lift_outcome_Inr FunctionCallTermination_call_def
        FunctionCallTermination_reset_def split: if_splits)
qed

lemma reset_reset: "reset rt (reset rt' p) = reset rt p"
  by (cases p) (simp_all add: reset_defs)

lemma perform_then_reset: "reset rt (snd (perform a p)) = reset rt p"
proof (cases a)
  case (Evaluate rt' ms)
  then show ?thesis
    by (auto simp: call_then_reset split: sum.splits)
next
  case (Reset rt')
  then show ?thesis by (simp add: reset_reset)
next
  case Set
  then show ?thesis
    by (cases p) (simp_all add: ExternalTermination_set_def ExternalTermination_reset_def)
qed

lemma run_then_reset: "reset rt (snd (run as p)) = reset rt p"
proof (induction as arbitrary: p)
  case Nil
  show ?case by simp
next
  case (Cons a as)
  have "reset rt (snd (run as (snd (perform a p)))) = reset rt (snd (perform a p))"
    by (rule Cons)
  then show ?case by (simp add: split_beta perform_then_reset)
qed

lemma constructed_reset:
  assumes "construct rt0 k = Inr p0"
  shows "reset rt p0 =
     (case p0 of TimeoutT s \<Rightarrow> TimeoutT (s\<lparr>start_time := monotonic rt\<rparr>) | _ \<Rightarrow> p0)"
  using assms
  by (cases k) (auto simp: init_defs reset_defs split: if_splits)

lemma constructed_terminated:
  assumes "construct rt0 k = Inr p0"
  shows "terminated p0 =
     (case p0 of
        MaxMessageT s \<Rightarrow> max_messages s \<le> 0
      | TokenUsageT s \<Rightarrow>
          (\<exists>c. c \<le> 0 \<and> (max_total_token s = Some c \<or> max_prompt_token s = Some c
                          \<or> max_completion_token s = Some c))
      | _ \<Rightarrow> False)"
  using assms
  by (cases k) (auto simp: init_defs MaxMessageTermination_terminated_def
      TokenUsageTermination_terminated_def split: if_splits option.splits)

text \<open>
  Claim C3, as it stands, fails: a message-count budget with ceiling 0 is triggered right
  after a reset, and a second reset of a timeout at a later clock reading changes its start
  time.
\<close>

theorem reset_counterexample:
  "terminated (reset runtime0 (MaxMessageT (MaxMessageTermination_init 0 False)))
   \<and> reset runtime1 (reset runtime0 (TimeoutT (TimeoutTermination_init runtime0 (FloatNum 5)))) \<noteq>
       reset runtime0 (TimeoutT (TimeoutTermination_init runtime0 (FloatNum 5)))"
  by (simp add: MaxMessageTermination_init_def MaxMessageTermination_reset_def
      MaxMessageTermination_terminated_def TimeoutTermination_init_def TimeoutTermination_reset_def
      runtime0_def runtime1_def)

text \<open>
  Claim C3, amended. For every condition as its constructor built it and every state
  reached from there by evaluations, resets and \<^verbatim>\<open>set()\<close> calls, reset (which cannot raise)
  restores the constructed instance, except that a timeout's start time becomes the clock
  reading at the reset. The instance is then triggered exactly if it was at construction:
  never, except for a message-count budget with a ceiling \<open>\<le> 0\<close> and a token budget with
  some configured ceiling \<open>\<le> 0\<close>. A second reset at the same clock reading changes
  nothing, and for every condition but the timeout neither does one at another reading.
\<close>

theorem reset_restores_construction:
  assumes "construct rt0 k = Inr p0"
  shows "reset rt (snd (run as p0)) =
           (case p0 of TimeoutT s \<Rightarrow> TimeoutT (s\<lparr>start_time := monotonic rt\<rparr>) | _ \<Rightarrow> p0)
    \<and> terminated (reset rt (snd (run as p0))) = terminated p0
    \<and> terminated p0 =
         (case p0 of
            MaxMessageT s \<Rightarrow> max_messages s \<le> 0
          | TokenUsageT s \<Rightarrow>
              (\<exists>c. c \<le> 0 \<and> (max_total_token s = Some c \<or> max_prompt_token s = Some c
                              \<or> max_completion_token s = Some c))
          | _ \<Rightarrow> False)
    \<and> reset rt (reset rt (snd (run as p0))) = reset rt (snd (run as p0))
    \<and> ((\<forall>s. p0 \<noteq> TimeoutT s) \<longrightarrow>
          reset rt' (reset rt (snd (run as p0))) = reset rt (snd (run as p0)))"
proof -
  have a: "reset rt (snd (run as p0)) =
           (case p0 of TimeoutT s \<Rightarrow> TimeoutT (s\<lparr>start_time := monotonic rt\<rparr>) | _ \<Rightarrow> p0)"
    by (simp add: run_then_reset constructed_reset [OF assms])
  have "terminated (reset rt p0) = terminated p0"
    unfolding constructed_reset [OF assms] by (cases p0) simp_all
  then have b: "terminated (reset rt (snd (run as p0))) = terminated p0"
    by (simp add: run_then_reset)
  have c: "reset rt (reset rt (snd (run as p0))) = reset rt (snd (run as p0))"
    by (simp add: reset_reset)
  have d: "reset rt' (reset rt (snd (run as p0))) = reset rt (snd (run as p0))"
    if "\<forall>s. p0 \<noteq> TimeoutT s"
    using that by (cases p0) (simp_all add: reset_reset run_then_reset reset_defs)
  from a b c d constructed_terminated [OF assms] show ?thesis by blast
qed

theorem reset_restores_construction_witness:
  "construct runtime0 New_ExternalTermination = Inr (ExternalT ExternalTermination_init)
   \<and> reset runtime1 (snd (run [Set, Evaluate runtime0 []] (ExternalT ExternalTermination_init))) =
       ExternalT ExternalTermination_init
   \<and> \<not> terminated
         (reset runtime1 (snd (run [Set, Evaluate runtime0 []] (ExternalT ExternalTermination_init))))
   \<and> reset runtime0
        (reset runtime1 (snd (run [Set, Evaluate runtime0 []] (ExternalT ExternalTermination_init)))) =
       reset runtime1 (snd (run [Set, Evaluate runtime0 []] (ExternalT ExternalTermination_init)))"
proof -
  have built: "construct runtime0 New_ExternalTermination = Inr (ExternalT ExternalTermination_init)"
    by simp
  have fresh: "\<not> terminated (ExternalT ExternalTermination_init)"
    by (simp add: ExternalTermination_init_def)
  have other: "\<forall>s. ExternalT ExternalTermination_init \<noteq> TimeoutT s"
    by simp
  from reset_restores_construction [OF built, of runtime1 "[Set, Evaluate runtime0 []]" runtime0]
    built fresh other
  show ?thesis
    by (simp add: ExternalTermination_reset_def ExternalTermination_init_def del: run.simps)
qed

section \<open>The token-usage budget\<close>

lemma usage_records_simps [simp]:
  "usage_records [] = []"
  "usage_records (m # ms) =
     (case models_usage m of None \<Rightarrow> usage_records ms | Some u \<Rightarrow> u # usage_records ms)"
  "usage_records (xs @ ys) = usage_records xs @ usage_records ys"
  by (simp_all add: usage_records_def List.map_filter_def split: option.splits)

lemma token_sums_simps [simp]:
  "prompt_sum [] = 0" "completion_sum [] = 0"
  "prompt_sum (xs @ ys) = prompt_sum xs + prompt_sum ys"
  "completion_sum (xs @ ys) = completion_sum xs + completion_sum ys"
  by (simp_all add: prompt_sum_def completion_sum_def)

lemma token_sums_Cons:
  "prompt_sum (m # ms) =
     (case models_usage m of None \<Rightarrow> 0 | Some u \<Rightarrow> prompt_tokens u) + prompt_sum ms"
  "completion_sum (m # ms) =
     (case models_usage m of None \<Rightarrow> 0 | Some u \<Rightarrow> completion_tokens u) + completion_sum ms"
  by (simp_all add: prompt_sum_def completion_sum_def split: option.splits)

lemma TokenUsage_loop_totals:
  "TokenUsageTermination_loop s ms =
     s\<lparr>prompt_token_count := prompt_token_count s + prompt_sum ms,
       completion_token_count := completion_token_count s + completion_sum ms,
       total_token_count := total_token_count s + (prompt_sum ms + completion_sum ms)\<rparr>"
proof (induction ms arbitrary: s)
  case Nil
  show ?case by simp
next
  case (Cons m ms)
  show ?case
  proof (cases "models_usage m")
    case None
    then show ?thesis by (simp add: Cons token_sums_Cons)
  next
    case (Some u)
    then show ?thesis by (simp add: Cons token_sums_Cons algebra_simps)
  qed
qed

lemma TokenUsage_terminated_iff:
  "TokenUsageTermination_terminated s \<longleftrightarrow>
     (\<exists>c. max_total_token s = Some c \<and> c \<le> total_token_count s)
     \<or> (\<exists>c. max_prompt_token s = Some c \<and> c \<le> prompt_token_count s)
     \<or> (\<exists>c. max_completion_token s = Some c \<and> c \<le> completion_token_count s)"
  by (auto simp: TokenUsageTermination_terminated_def split: option.splits)

lemma TokenUsage_step:
  assumes "\<not> TokenUsageTermination_terminated s"
  shows "TokenUsageTermination_call s ms =
      (let s' = s\<lparr>prompt_token_count := prompt_token_count s + prompt_sum ms,
                   completion_token_count := completion_token_count s + completion_sum ms,
                   total_token_count := total_token_count s + (prompt_sum ms + completion_sum ms)\<rparr>
       in Inr (if (\<exists>c. max_total_token s = Some c \<and> c \<le> total_token_count s')
                  \<or> (\<exists>c. max_prompt_token s = Some c \<and> c \<le> prompt_token_count s')
                  \<or> (\<exists>c. max_completion_token s = Some c \<and> c \<le> completion_token_count s')
               then Some (new_StopMessage (TokenUsageTermination_content s')
                            ''TokenUsageTermination'')
               else None, s'))"
  using assms
  by (simp add: TokenUsageTermination_call_def TokenUsage_loop_totals [symmetric] Let_def
      TokenUsage_terminated_iff [of "TokenUsageTermination_loop s ms"])
     (simp add: TokenUsage_loop_totals)

lemma str_int_tokens:
  "str_int 10 = ''10''" "str_int 200 = ''200''" "str_int 210 = ''210''"
  "str_int 17 = ''17''" "str_int 20 = ''20''"
  by (simp_all add: str_int_def str_nat.simps digit_char_def)


lemma TokenUsage_prompt_two_turns:
  assumes "models_usage m1 = Some \<lparr>prompt_tokens = 5, completion_tokens = c1\<rparr>"
    and "models_usage m2 = Some \<lparr>prompt_tokens = 5, completion_tokens = c2\<rparr>"
    and "TokenUsageTermination_init None (Some 10) None = Inr s0"
  shows "fst (run [Evaluate rt1 [m1], Evaluate rt2 [m2]] (TokenUsageT s0)) =
     [Inr None,
      Inr (Some (new_StopMessage
                  (''Token usage limit reached, total token count: '' @ str_int (10 + c1 + c2) @
                   '', prompt token count: 10, completion token count: '' @ str_int (c1 + c2) @
                   ''.'')
                  ''TokenUsageTermination''))]"
proof -
  have s0: "s0 = \<lparr>max_total_token = None, max_prompt_token = Some 10, max_completion_token = None,
            total_token_count = 0, prompt_token_count = 0, completion_token_count = 0\<rparr>"
    using assms(3) by (simp add: TokenUsageTermination_init_def)
  have arith: "5 + c1 + (5 + c2) = 10 + c1 + c2" by simp
  show ?thesis
    using assms(1,2)
    by (simp add: s0 TokenUsageTermination_call_def TokenUsageTermination_terminated_def
        TokenUsageTermination_content_def str_int_tokens arith)
qed

text \<open>
  Claim C6. An evaluation of a token-usage budget that has not fired adds the prompt and
  completion tokens of every usage record in the batch to the prompt and completion totals,
  and their sum to the total count, kept as a counter of its own; it returns a stop message
  exactly when some configured ceiling is reached by its own total, and nothing otherwise.
  Configured with a prompt ceiling of 10 only and fed one message with 5 prompt tokens per
  call, it returns nothing on the first call and fires on the second, whatever the
  completion tokens are.
\<close>

theorem token_usage_budget:
  "(\<not> TokenUsageTermination_terminated s \<longrightarrow>
     TokenUsageTermination_call s ms =
      (let s' = s\<lparr>prompt_token_count := prompt_token_count s + prompt_sum ms,
                   completion_token_count := completion_token_count s + completion_sum ms,
                   total_token_count := total_token_count s + (prompt_sum ms + completion_sum ms)\<rparr>
       in Inr (if (\<exists>c. max_total_token s = Some c \<and> c \<le> total_token_count s')
                  \<or> (\<exists>c. max_prompt_token s = Some c \<and> c \<le> prompt_token_count s')
                  \<or> (\<exists>c. max_completion_token s = Some c \<and> c \<le> completion_token_count s')
               then Some (new_StopMessage (TokenUsageTermination_content s')
                            ''TokenUsageTermination'')
               else None, s')))
   \<and> (models_usage m1 = Some \<lparr>prompt_tokens = 5, completion_tokens = c1\<rparr> \<and>
       models_usage m2 = Some \<lparr>prompt_tokens = 5, completion_tokens = c2\<rparr> \<and>
       TokenUsageTermination_init None (Some 10) None = Inr s0 \<longrightarrow>
       fst (run [Evaluate rt1 [m1], Evaluate rt2 [m2]] (TokenUsageT s0)) =
         [Inr None,
          Inr (Some (new_StopMessage
                  (''Token usage limit reached, total token count: '' @ str_int (10 + c1 + c2) @
                   '', prompt token count: 10, completion token count: '' @ str_int (c1 + c2) @
                   ''.'')
                  ''TokenUsageTermination''))])"
  using TokenUsage_step [of s ms] TokenUsage_prompt_two_turns [of m1 c1 m2 c2 s0 rt1 rt2]
  by blast

theorem token_usage_budget_witness:
  "\<not> TokenUsageTermination_terminated
       \<lparr>max_total_token = None, max_prompt_token = Some 10, max_completion_token = None,
        total_token_count = 0, prompt_token_count = 0, completion_token_count = 0\<rparr>
   \<and> TokenUsageTermination_call
       \<lparr>max_total_token = None, max_prompt_token = Some 10, max_completion_token = None,
        total_token_count = 0, prompt_token_count = 0, completion_token_count = 0\<rparr>
       [usage_msg 5 100] =
      Inr (None,
        \<lparr>max_total_token = None, max_prompt_token = Some 10, max_completion_token = None,
         total_token_count = 105, prompt_token_count = 5, completion_token_count = 100\<rparr>)
   \<and> models_usage (usage_msg 5 100) = Some \<lparr>prompt_tokens = 5, completion_tokens = 100\<rparr>
   \<and> TokenUsageTermination_init None (Some 10) None =
       Inr \<lparr>max_total_token = None, max_prompt_token = Some 10, max_completion_token = None,
        total_token_count = 0, prompt_token_count = 0, completion_token_count = 0\<rparr>
   \<and> fst (run [Evaluate runtime0 [usage_msg 5 100], Evaluate runtime1 [usage_msg 5 100]]
        (TokenUsageT
          \<lparr>max_total_token = None, max_prompt_token = Some 10, max_completion_token = None,
           total_token_count = 0, prompt_token_count = 0, completion_token_count = 0\<rparr>)) =
       [Inr None,
        Inr (Some (new_StopMessage
          ''Token usage limit reached, total token count: 210, prompt token count: 10, completion token count: 200.''
          ''TokenUsageTermination''))]"
proof -
  let ?s0 = "\<lparr>max_total_token = None, max_prompt_token = Some (10::int),
        max_completion_token = None,
        total_token_count = (0::int), prompt_token_count = (0::int),
        completion_token_count = (0::int)\<rparr>"
  let ?m = "usage_msg 5 100"
  note budget = token_usage_budget [of ?s0 "[?m]" ?m 100 ?m 100 ?s0 runtime0 runtime1]
  have fresh: "\<not> TokenUsageTermination_terminated ?s0"
    by (simp add: TokenUsageTermination_terminated_def)
  have usage: "models_usage ?m = Some \<lparr>prompt_tokens = 5, completion_tokens = 100\<rparr>"
    by (simp add: usage_msg_def)
  have built: "TokenUsageTermination_init None (Some 10) None = Inr ?s0"
    by (simp add: TokenUsageTermination_init_def)
  have sums: "prompt_sum [?m] = 5" "completion_sum [?m] = 100"
    by (simp_all add: token_sums_Cons usage)
  from budget fresh have first:
    "TokenUsageTermination_call ?s0 [?m] =
      Inr (None,
        \<lparr>max_total_token = None, max_prompt_token = Some 10, max_completion_token = None,
         total_token_count = 105, prompt_token_count = 5, completion_token_count = 100\<rparr>)"
    by (simp add: sums del: run.simps)
  from budget usage built have
    "fst (run [Evaluate runtime0 [?m], Evaluate runtime1 [?m]] (TokenUsageT ?s0)) =
       [Inr None,
        Inr (Some (new_StopMessage
                  (''Token usage limit reached, total token count: '' @ str_int (10 + 100 + 100) @
                   '', prompt token count: 10, completion token count: '' @ str_int (100 + 100) @
                   ''.'')
                  ''TokenUsageTermination''))]"
    by blast
  then have second:
    "fst (run [Evaluate runtime0 [?m], Evaluate runtime1 [?m]] (TokenUsageT ?s0)) =
       [Inr None,
        Inr (Some (new_StopMessage
          ''Token usage limit reached, total token count: 210, prompt token count: 10, completion token count: 200.''
          ''TokenUsageTermination''))]"
    by (simp add: str_int_tokens del: run.simps)
  from fresh first usage built second show ?thesis by blast
qed

subsection \<open>No short-circuit within a batch\<close>

lemma TokenUsage_loop_append:
  "TokenUsageTermination_loop s (xs @ ys) =
     TokenUsageTermination_loop (TokenUsageTermination_loop s xs) ys"
  by (induction xs arbitrary: s) (auto split: option.splits)

lemma nonneg_sums:
  assumes "\<forall>m\<in>set ms. \<forall>u. models_usage m = Some u \<longrightarrow>
             0 \<le> prompt_tokens u \<and> 0 \<le> completion_tokens u"
  shows "0 \<le> prompt_sum ms \<and> 0 \<le> completion_sum ms"
  using assms by (induction ms) (auto simp: token_sums_Cons split: option.splits)

lemma TokenUsage_stays_crossed:
  assumes "TokenUsageTermination_terminated s"
    and "\<forall>m\<in>set ms. \<forall>u. models_usage m = Some u \<longrightarrow>
             0 \<le> prompt_tokens u \<and> 0 \<le> completion_tokens u"
  shows "TokenUsageTermination_terminated (TokenUsageTermination_loop s ms)"
  using assms(1) nonneg_sums [OF assms(2)]
  by (auto simp: TokenUsage_loop_totals TokenUsage_terminated_iff)

lemma str_int_15: "str_int 15 = ''15''" "str_int 0 = ''0''"
  by (simp_all add: str_int_def str_nat.simps digit_char_def)

text \<open>
  Claim C10. One evaluation of a token-usage budget accumulates the usage records of the
  whole batch before it checks the ceilings, once: the state it leaves holds the sums over
  every message of the batch, the ceilings are compared with these sums, and a stop message
  reports exactly these sums. So the reported totals include the messages after the one at
  which a ceiling was first crossed, whatever their token counts; and when a ceiling is
  crossed after a prefix of the batch and the later messages carry no negative counts, the
  evaluation does fire.
\<close>

theorem token_usage_whole_batch:
  assumes "\<not> TokenUsageTermination_terminated s"
  shows "TokenUsageTermination_call s (pre @ post) =
      (let p = prompt_token_count s + prompt_sum pre + prompt_sum post;
           c = completion_token_count s + completion_sum pre + completion_sum post;
           t = total_token_count s + (prompt_sum pre + completion_sum pre)
                 + (prompt_sum post + completion_sum post)
       in Inr (if (\<exists>m. max_total_token s = Some m \<and> m \<le> t)
                  \<or> (\<exists>m. max_prompt_token s = Some m \<and> m \<le> p)
                  \<or> (\<exists>m. max_completion_token s = Some m \<and> m \<le> c)
               then Some (new_StopMessage
                     (''Token usage limit reached, total token count: '' @ str_int t @
                      '', prompt token count: '' @ str_int p @
                      '', completion token count: '' @ str_int c @ ''.'')
                     ''TokenUsageTermination'')
               else None,
               s\<lparr>prompt_token_count := p, completion_token_count := c,
                  total_token_count := t\<rparr>))
    \<and> (TokenUsageTermination_terminated (TokenUsageTermination_loop s pre) \<and>
        (\<forall>m\<in>set post. \<forall>u. models_usage m = Some u \<longrightarrow>
             0 \<le> prompt_tokens u \<and> 0 \<le> completion_tokens u) \<longrightarrow>
        TokenUsageTermination_call s (pre @ post) =
          Inr (Some (new_StopMessage
                 (''Token usage limit reached, total token count: '' @
                    str_int (total_token_count s + (prompt_sum pre + completion_sum pre)
                              + (prompt_sum post + completion_sum post)) @
                  '', prompt token count: '' @
                    str_int (prompt_token_count s + prompt_sum pre + prompt_sum post) @
                  '', completion token count: '' @
                    str_int (completion_token_count s + completion_sum pre + completion_sum post) @
                  ''.'')
                 ''TokenUsageTermination''),
               TokenUsageTermination_loop (TokenUsageTermination_loop s pre) post))"
proof (intro conjI impI)
  have sums: "prompt_token_count s + prompt_sum (pre @ post) =
         prompt_token_count s + prompt_sum pre + prompt_sum post"
    "completion_token_count s + completion_sum (pre @ post) =
         completion_token_count s + completion_sum pre + completion_sum post"
    "total_token_count s + (prompt_sum (pre @ post) + completion_sum (pre @ post)) =
         total_token_count s + (prompt_sum pre + completion_sum pre)
                 + (prompt_sum post + completion_sum post)"
    by simp_all
  show "TokenUsageTermination_call s (pre @ post) =
      (let p = prompt_token_count s + prompt_sum pre + prompt_sum post;
           c = completion_token_count s + completion_sum pre + completion_sum post;
           t = total_token_count s + (prompt_sum pre + completion_sum pre)
                 + (prompt_sum post + completion_sum post)
       in Inr (if (\<exists>m. max_total_token s = Some m \<and> m \<le> t)
                  \<or> (\<exists>m. max_prompt_token s = Some m \<and> m \<le> p)
                  \<or> (\<exists>m. max_completion_token s = Some m \<and> m \<le> c)
               then Some (new_StopMessage
                     (''Token usage limit reached, total token count: '' @ str_int t @
                      '', prompt token count: '' @ str_int p @
                      '', completion token count: '' @ str_int c @ ''.'')
                     ''TokenUsageTermination'')
               else None,
               s\<lparr>prompt_token_count := p, completion_token_count := c,
                  total_token_count := t\<rparr>))"
    unfolding TokenUsage_step [OF assms, of "pre @ post"] sums Let_def
      TokenUsageTermination_content_def
    by simp
next
  assume crossed: "TokenUsageTermination_terminated (TokenUsageTermination_loop s pre) \<and>
        (\<forall>m\<in>set post. \<forall>u. models_usage m = Some u \<longrightarrow>
             0 \<le> prompt_tokens u \<and> 0 \<le> completion_tokens u)"
  let ?s' = "TokenUsageTermination_loop (TokenUsageTermination_loop s pre) post"
  have fired: "TokenUsageTermination_terminated ?s'"
    using crossed by (simp add: TokenUsage_stays_crossed)
  have whole: "TokenUsageTermination_loop s (pre @ post) = ?s'"
    by (rule TokenUsage_loop_append)
  have counts:
    "total_token_count ?s' = total_token_count s + (prompt_sum pre + completion_sum pre)
                              + (prompt_sum post + completion_sum post)"
    "prompt_token_count ?s' = prompt_token_count s + prompt_sum pre + prompt_sum post"
    "completion_token_count ?s' = completion_token_count s + completion_sum pre + completion_sum post"
    by (simp_all add: TokenUsage_loop_totals)
  have "TokenUsageTermination_call s (pre @ post) =
          Inr (Some (new_StopMessage (TokenUsageTermination_content ?s')
                 ''TokenUsageTermination''), ?s')"
    using assms fired by (simp add: TokenUsageTermination_call_def whole Let_def)
  then show "TokenUsageTermination_call s (pre @ post) =
          Inr (Some (new_StopMessage
                 (''Token usage limit reached, total token count: '' @
                    str_int (total_token_count s + (prompt_sum pre + completion_sum pre)
                              + (prompt_sum post + completion_sum post)) @
                  '', prompt token count: '' @
                    str_int (prompt_token_count s + prompt_sum pre + prompt_sum post) @
                  '', completion token count: '' @
                    str_int (completion_token_count s + completion_sum pre + completion_sum post) @
                  ''.'')
                 ''TokenUsageTermination''), ?s')"
    unfolding TokenUsageTermination_content_def counts by simp
qed

theorem token_usage_whole_batch_witness:
  "\<not> TokenUsageTermination_terminated
       \<lparr>max_total_token = None, max_prompt_token = Some 10, max_completion_token = None,
        total_token_count = 0, prompt_token_count = 0, completion_token_count = 0\<rparr>
   \<and> TokenUsageTermination_call
       \<lparr>max_total_token = None, max_prompt_token = Some 10, max_completion_token = None,
        total_token_count = 0, prompt_token_count = 0, completion_token_count = 0\<rparr>
       [usage_msg 20 0, usage_msg (- 5) 0] =
      Inr (Some (new_StopMessage
          ''Token usage limit reached, total token count: 15, prompt token count: 15, completion token count: 0.''
          ''TokenUsageTermination''),
        \<lparr>max_total_token = None, max_prompt_token = Some 10, max_completion_token = None,
         total_token_count = 15, prompt_token_count = 15, completion_token_count = 0\<rparr>)
   \<and> TokenUsageTermination_terminated
       (TokenUsageTermination_loop
         \<lparr>max_total_token = None, max_prompt_token = Some 10, max_completion_token = None,
          total_token_count = 0, prompt_token_count = 0, completion_token_count = 0\<rparr>
         [usage_msg 10 0])
   \<and> models_usage (usage_msg 7 3) = Some \<lparr>prompt_tokens = 7, completion_tokens = 3\<rparr>
   \<and> TokenUsageTermination_call
       \<lparr>max_total_token = None, max_prompt_token = Some 10, max_completion_token = None,
        total_token_count = 0, prompt_token_count = 0, completion_token_count = 0\<rparr>
       [usage_msg 10 0, usage_msg 7 3] =
      Inr (Some (new_StopMessage
          ''Token usage limit reached, total token count: 20, prompt token count: 17, completion token count: 3.''
          ''TokenUsageTermination''),
        \<lparr>max_total_token = None, max_prompt_token = Some 10, max_completion_token = None,
         total_token_count = 20, prompt_token_count = 17, completion_token_count = 3\<rparr>)"
proof -
  let ?s0 = "\<lparr>max_total_token = None, max_prompt_token = Some (10::int),
        max_completion_token = None,
        total_token_count = (0::int), prompt_token_count = (0::int),
        completion_token_count = (0::int)\<rparr>"
  have fresh: "\<not> TokenUsageTermination_terminated ?s0"
    by (simp add: TokenUsageTermination_terminated_def)
  have crossed: "TokenUsageTermination_terminated (TokenUsageTermination_loop ?s0 [usage_msg 10 0])"
    by (simp add: TokenUsageTermination_terminated_def usage_msg_def)
  have usage: "models_usage (usage_msg 7 3) = Some \<lparr>prompt_tokens = 7, completion_tokens = 3\<rparr>"
    by (simp add: usage_msg_def)
  have nonneg: "\<forall>m\<in>set [usage_msg 7 3]. \<forall>u. models_usage m = Some u \<longrightarrow>
             0 \<le> prompt_tokens u \<and> 0 \<le> completion_tokens u"
    by (simp add: usage_msg_def)
  have sums: "prompt_sum [usage_msg 10 0] = 10" "completion_sum [usage_msg 10 0] = 0"
    "prompt_sum [usage_msg 7 3] = 7" "completion_sum [usage_msg 7 3] = 3"
    "prompt_sum [usage_msg 20 0] = 20" "completion_sum [usage_msg 20 0] = 0"
    "prompt_sum [usage_msg (- 5) 0] = - 5" "completion_sum [usage_msg (- 5) 0] = 0"
    by (simp_all add: token_sums_Cons usage_msg_def)
  from token_usage_whole_batch [OF fresh, of "[usage_msg 20 0]" "[usage_msg (- 5) 0]"]
  have "TokenUsageTermination_call ?s0 ([usage_msg 20 0] @ [usage_msg (- 5) 0]) =
      (let p = prompt_token_count ?s0 + prompt_sum [usage_msg 20 0] + prompt_sum [usage_msg (- 5) 0];
           c = completion_token_count ?s0 + completion_sum [usage_msg 20 0]
                 + completion_sum [usage_msg (- 5) 0];
           t = total_token_count ?s0 + (prompt_sum [usage_msg 20 0] + completion_sum [usage_msg 20 0])
                 + (prompt_sum [usage_msg (- 5) 0] + completion_sum [usage_msg (- 5) 0])
       in Inr (if (\<exists>m. max_total_token ?s0 = Some m \<and> m \<le> t)
                  \<or> (\<exists>m. max_prompt_token ?s0 = Some m \<and> m \<le> p)
                  \<or> (\<exists>m. max_completion_token ?s0 = Some m \<and> m \<le> c)
               then Some (new_StopMessage
                     (''Token usage limit reached, total token count: '' @ str_int t @
                      '', prompt token count: '' @ str_int p @
                      '', completion token count: '' @ str_int c @ ''.'')
                     ''TokenUsageTermination'')
               else None,
               ?s0\<lparr>prompt_token_count := p, completion_token_count := c,
                  total_token_count := t\<rparr>))"
    by blast
  then have negative: "TokenUsageTermination_call ?s0 [usage_msg 20 0, usage_msg (- 5) 0] =
      Inr (Some (new_StopMessage
          ''Token usage limit reached, total token count: 15, prompt token count: 15, completion token count: 0.''
          ''TokenUsageTermination''),
        \<lparr>max_total_token = None, max_prompt_token = Some 10, max_completion_token = None,
         total_token_count = 15, prompt_token_count = 15, completion_token_count = 0\<rparr>)"
    by (simp add: sums str_int_15 Let_def)
  from token_usage_whole_batch [OF fresh, of "[usage_msg 10 0]" "[usage_msg 7 3]"] crossed nonneg
  have "TokenUsageTermination_call ?s0 ([usage_msg 10 0] @ [usage_msg 7 3]) =
          Inr (Some (new_StopMessage
                 (''Token usage limit reached, total token count: '' @
                    str_int (total_token_count ?s0
                              + (prompt_sum [usage_msg 10 0] + completion_sum [usage_msg 10 0])
                              + (prompt_sum [usage_msg 7 3] + completion_sum [usage_msg 7 3])) @
                  '', prompt token count: '' @
                    str_int (prompt_token_count ?s0 + prompt_sum [usage_msg 10 0]
                              + prompt_sum [usage_msg 7 3]) @
                  '', completion token count: '' @
                    str_int (completion_token_count ?s0 + completion_sum [usage_msg 10 0]
                              + completion_sum [usage_msg 7 3]) @
                  ''.'')
                 ''TokenUsageTermination''),
               TokenUsageTermination_loop (TokenUsageTermination_loop ?s0 [usage_msg 10 0])
                 [usage_msg 7 3])"
    by blast
  then have "TokenUsageTermination_call ?s0 [usage_msg 10 0, usage_msg 7 3] =
      Inr (Some (new_StopMessage
          ''Token usage limit reached, total token count: 20, prompt token count: 17, completion token count: 3.''
          ''TokenUsageTermination''),
        \<lparr>max_total_token = None, max_prompt_token = Some 10, max_completion_token = None,
         total_token_count = 20, prompt_token_count = 17, completion_token_count = 3\<rparr>)"
    by (simp add: sums str_int_tokens str_int_small TokenUsage_loop_totals)
  with fresh negative crossed usage show ?thesis by blast
qed

section \<open>The externally set flag\<close>

lemma External_perform_cases:
  "\<exists>r s'. perform a (ExternalT s) = (r, ExternalT s')"
  by (cases a) (auto simp: ExternalTermination_call_def split: if_splits)

lemma External_sets_keep_flag:
  assumes "\<forall>a\<in>set as. a = Set" and "setted s"
  shows "snd (run as (ExternalT s)) = ExternalT s"
  using assms
proof (induction as)
  case Nil
  show ?case by simp
next
  case (Cons a as)
  then have "a = Set" by simp
  moreover have "ExternalTermination_set s = s"
    using \<open>setted s\<close> by (simp add: ExternalTermination_set_def)
  ultimately show ?case using Cons by (simp add: split_beta)
qed

lemma External_set_then_call:
  assumes "\<not> external_terminated s" and "\<forall>a\<in>set as. a = Set"
  shows "perform (Evaluate rt ms) (snd (run (Set # as) (ExternalT s))) =
           (Inr (Some (new_StopMessage ''External termination requested'' ''ExternalTermination'')),
            ExternalT (s\<lparr>external_terminated := True, setted := True\<rparr>))"
proof -
  have "snd (run as (ExternalT (ExternalTermination_set s))) = ExternalT (ExternalTermination_set s)"
    using assms(2) by (rule External_sets_keep_flag) (simp add: ExternalTermination_set_def)
  then have "snd (run (Set # as) (ExternalT s)) = ExternalT (ExternalTermination_set s)"
    by (simp add: split_beta)
  then show ?thesis
    using assms(1) by (simp add: ExternalTermination_call_def ExternalTermination_set_def)
qed

lemma External_perform_related:
  assumes "s = t \<or> (external_terminated s \<and> external_terminated t)"
  shows "\<exists>r s' t'. perform a (ExternalT s) = (r, ExternalT s')
            \<and> perform a (ExternalT t) = (r, ExternalT t')
            \<and> (s' = t' \<or> (external_terminated s' \<and> external_terminated t'))"
proof (cases a)
  case (Evaluate rt ms)
  with assms show ?thesis
    by (auto simp: ExternalTermination_call_def)
next
  case (Reset rt)
  with assms show ?thesis
    by (auto simp: ExternalTermination_reset_def)
next
  case Set
  with assms show ?thesis
    by (auto simp: ExternalTermination_set_def)
qed

lemma External_run_related:
  assumes "s = t \<or> (external_terminated s \<and> external_terminated t)"
  shows "fst (run as (ExternalT s)) = fst (run as (ExternalT t))
       \<and> terminated (snd (run as (ExternalT s))) = terminated (snd (run as (ExternalT t)))"
  using assms
proof (induction as arbitrary: s t)
  case Nil
  then show ?case by auto
next
  case (Cons a as)
  from External_perform_related [OF Cons.prems, of a]
  obtain r s' t' where step: "perform a (ExternalT s) = (r, ExternalT s')"
      "perform a (ExternalT t) = (r, ExternalT t')"
      "s' = t' \<or> (external_terminated s' \<and> external_terminated t')"
    by blast
  from Cons.IH [OF step(3)] step(1,2) show ?case
    by (simp add: split_beta)
qed

lemma External_triggered_was_set:
  assumes "external_terminated s0 \<longrightarrow> setted s0"
    and "snd (run as (ExternalT s0)) = ExternalT s"
  shows "external_terminated s \<longrightarrow> setted s"
  using assms
proof (induction as arbitrary: s0)
  case Nil
  then show ?case by simp
next
  case (Cons a as)
  obtain r s1 where step: "perform a (ExternalT s0) = (r, ExternalT s1)"
    using External_perform_cases by blast
  have "external_terminated s1 \<longrightarrow> setted s1"
    using step Cons.prems(1)
    by (cases a) (auto simp: ExternalTermination_call_def ExternalTermination_reset_def
        ExternalTermination_set_def split: if_splits)
  moreover have "snd (run as (ExternalT s1)) = ExternalT s"
    using Cons.prems(2) step by (simp add: split_beta)
  ultimately show ?case by (rule Cons.IH)
qed

lemma run_append: "snd (run (xs @ ys) p) = snd (run ys (snd (run xs p)))"
  by (induction xs arbitrary: p) (simp_all add: split_beta)

lemma External_idle_untriggered:
  assumes "\<forall>a\<in>set as. a = Set \<or> is_Reset a" and "\<not> external_terminated s"
  shows "\<exists>s'. snd (run as (ExternalT s)) = ExternalT s' \<and> \<not> external_terminated s'"
  using assms
proof (induction as arbitrary: s)
  case Nil
  then show ?case by simp
next
  case (Cons a as)
  from Cons.prems have "a = Set \<or> is_Reset a" by simp
  then obtain s1 where step: "snd (perform a (ExternalT s)) = ExternalT s1"
      "\<not> external_terminated s1"
    using Cons.prems(2)
    by (cases a) (auto simp: ExternalTermination_set_def ExternalTermination_reset_def)
  from Cons.IH [OF _ step(2)] Cons.prems(1) step(1) show ?case
    by (simp add: split_beta)
qed

lemma External_set_before_first_call:
  assumes "\<forall>a\<in>set before. a = Set \<or> is_Reset a" and "\<forall>a\<in>set sets. a = Set"
  shows "perform (Evaluate rt ms)
           (snd (run (before @ Set # sets) (ExternalT ExternalTermination_init))) =
         (Inr (Some (new_StopMessage ''External termination requested'' ''ExternalTermination'')),
          ExternalT \<lparr>external_terminated = True, setted = True\<rparr>)"
proof -
  have "\<not> external_terminated ExternalTermination_init"
    by (simp add: ExternalTermination_init_def)
  with External_idle_untriggered [OF assms(1)]
  obtain s where s: "snd (run before (ExternalT ExternalTermination_init)) = ExternalT s"
      "\<not> external_terminated s"
    by blast
  have "snd (run (before @ Set # sets) (ExternalT ExternalTermination_init)) =
          snd (run (Set # sets) (ExternalT s))"
    by (simp only: run_append s(1))
  moreover have "s\<lparr>external_terminated := True, setted := True\<rparr> =
      \<lparr>external_terminated = True, setted = True\<rparr>"
    by (cases s) simp
  ultimately show ?thesis
    using External_set_then_call [OF s(2) assms(2), of rt ms] by (simp only:)
qed

lemma External_reset_then_call:
  assumes "\<forall>a\<in>set before. a = Set \<or> is_Reset a"
  shows "perform (Evaluate rt ms)
           (snd (run (before @ [Reset rt']) (ExternalT ExternalTermination_init))) =
         (Inr None, ExternalT ExternalTermination_init)"
proof -
  have "\<not> external_terminated ExternalTermination_init"
    by (simp add: ExternalTermination_init_def)
  with External_idle_untriggered [OF assms]
  obtain s where s: "snd (run before (ExternalT ExternalTermination_init)) = ExternalT s"
    by blast
  have "snd (run (before @ [Reset rt']) (ExternalT ExternalTermination_init)) =
          snd (run [Reset rt'] (ExternalT s))"
    by (simp only: run_append s)
  also have "\<dots> = ExternalT ExternalTermination_init"
    by (simp add: ExternalTermination_reset_def ExternalTermination_init_def)
  finally show ?thesis
    by (simp add: ExternalTermination_call_def ExternalTermination_init_def)
qed

text \<open>
  Claim C7, as it stands, fails: \<^verbatim>\<open>set()\<close> called before the first evaluation does not make
  that evaluation fire when a reset comes in between, since \<^verbatim>\<open>reset\<close> clears the pending
  flag. After \<^verbatim>\<open>set()\<close> and \<^verbatim>\<open>reset()\<close> on a new instance, the first evaluation, of the empty
  batch, returns nothing.
\<close>

theorem external_set_then_reset_counterexample:
  "perform (Evaluate runtime0 [])
     (snd (run [Set, Reset runtime1] (ExternalT ExternalTermination_init))) =
   (Inr None, ExternalT ExternalTermination_init)"
  by (simp add: ExternalTermination_init_def ExternalTermination_set_def
      ExternalTermination_reset_def ExternalTermination_call_def)

text \<open>
  Claim C7, amended. If \<^verbatim>\<open>set()\<close> is called before the first evaluation and no reset
  follows that call before the evaluation, the first evaluation returns the stop message
  whatever the batch, the empty one included; the same holds on every instance that has not
  fired. If a reset is the last call before the evaluation, or \<^verbatim>\<open>set()\<close> was never called,
  the evaluation returns nothing. On an instance that has fired, \<^verbatim>\<open>set()\<close> has no
  observable effect: every later sequence of evaluations, resets and \<^verbatim>\<open>set()\<close> calls yields
  the same results and the same \<^verbatim>\<open>terminated\<close> with and without it; on an instance that
  fired in a run from construction it does not even change the state.
\<close>

theorem external_flag_ordering:
  "(\<not> external_terminated s \<and> (\<forall>a\<in>set sets. a = Set) \<longrightarrow>
      perform (Evaluate rt ms) (snd (run (Set # sets) (ExternalT s))) =
        (Inr (Some (new_StopMessage ''External termination requested'' ''ExternalTermination'')),
         ExternalT (s\<lparr>external_terminated := True, setted := True\<rparr>)))
   \<and> ((\<forall>a\<in>set before. a = Set \<or> is_Reset a) \<and> (\<forall>a\<in>set sets. a = Set) \<longrightarrow>
      perform (Evaluate rt ms)
        (snd (run (before @ Set # sets) (ExternalT ExternalTermination_init))) =
        (Inr (Some (new_StopMessage ''External termination requested'' ''ExternalTermination'')),
         ExternalT \<lparr>external_terminated = True, setted = True\<rparr>))
   \<and> ((\<forall>a\<in>set before. a = Set \<or> is_Reset a) \<longrightarrow>
      perform (Evaluate rt ms)
        (snd (run (before @ [Reset rt']) (ExternalT ExternalTermination_init))) =
        (Inr None, ExternalT ExternalTermination_init))
   \<and> (\<not> external_terminated s \<and> \<not> setted s \<longrightarrow>
        ExternalTermination_call s ms = Inr (None, s))
   \<and> ExternalTermination_call ExternalTermination_init ms = Inr (None, ExternalTermination_init)
   \<and> (external_terminated s \<longrightarrow>
        fst (run as (ExternalT (ExternalTermination_set s))) = fst (run as (ExternalT s))
        \<and> terminated (snd (run as (ExternalT (ExternalTermination_set s)))) =
            terminated (snd (run as (ExternalT s))))
   \<and> (snd (run as (ExternalT ExternalTermination_init)) = ExternalT s \<and> external_terminated s \<longrightarrow>
        ExternalTermination_set s = s)"
proof (intro conjI impI)
  assume "\<not> external_terminated s \<and> (\<forall>a\<in>set sets. a = Set)"
  then show "perform (Evaluate rt ms) (snd (run (Set # sets) (ExternalT s))) =
        (Inr (Some (new_StopMessage ''External termination requested'' ''ExternalTermination'')),
         ExternalT (s\<lparr>external_terminated := True, setted := True\<rparr>))"
    using External_set_then_call by blast
next
  assume "(\<forall>a\<in>set before. a = Set \<or> is_Reset a) \<and> (\<forall>a\<in>set sets. a = Set)"
  then show "perform (Evaluate rt ms)
        (snd (run (before @ Set # sets) (ExternalT ExternalTermination_init))) =
        (Inr (Some (new_StopMessage ''External termination requested'' ''ExternalTermination'')),
         ExternalT \<lparr>external_terminated = True, setted = True\<rparr>)"
    using External_set_before_first_call by blast
next
  assume "\<forall>a\<in>set before. a = Set \<or> is_Reset a"
  then show "perform (Evaluate rt ms)
        (snd (run (before @ [Reset rt']) (ExternalT ExternalTermination_init))) =
        (Inr None, ExternalT ExternalTermination_init)"
    by (rule External_reset_then_call)
next
  assume "\<not> external_terminated s \<and> \<not> setted s"
  then show "ExternalTermination_call s ms = Inr (None, s)"
    by (simp add: ExternalTermination_call_def)
next
  show "ExternalTermination_call ExternalTermination_init ms = Inr (None, ExternalTermination_init)"
    by (simp add: ExternalTermination_call_def ExternalTermination_init_def)
next
  assume t: "external_terminated s"
  then have rel: "ExternalTermination_set s = s \<or>
      (external_terminated (ExternalTermination_set s) \<and> external_terminated s)"
    by (simp add: ExternalTermination_set_def)
  from External_run_related [OF rel, of as]
  show "fst (run as (ExternalT (ExternalTermination_set s))) = fst (run as (ExternalT s))"
    and "terminated (snd (run as (ExternalT (ExternalTermination_set s)))) =
            terminated (snd (run as (ExternalT s)))"
    by simp_all
next
  assume r: "snd (run as (ExternalT ExternalTermination_init)) = ExternalT s \<and> external_terminated s"
  have "external_terminated ExternalTermination_init \<longrightarrow> setted ExternalTermination_init"
    by (simp add: ExternalTermination_init_def)
  from External_triggered_was_set [OF this, of as s] r have "setted s" by blast
  then show "ExternalTermination_set s = s"
    by (simp add: ExternalTermination_set_def)
qed

theorem external_flag_ordering_witness:
  "\<not> external_terminated ExternalTermination_init
   \<and> \<not> setted ExternalTermination_init
   \<and> perform (Evaluate runtime0 []) (snd (run [Set, Set] (ExternalT ExternalTermination_init))) =
        (Inr (Some (new_StopMessage ''External termination requested'' ''ExternalTermination'')),
         ExternalT \<lparr>external_terminated = True, setted = True\<rparr>)
   \<and> is_Reset (Reset runtime1)
   \<and> perform (Evaluate runtime0 [])
        (snd (run [Set, Reset runtime1, Set, Set] (ExternalT ExternalTermination_init))) =
        (Inr (Some (new_StopMessage ''External termination requested'' ''ExternalTermination'')),
         ExternalT \<lparr>external_terminated = True, setted = True\<rparr>)
   \<and> perform (Evaluate runtime0 [])
        (snd (run [Set, Reset runtime1, Reset runtime0] (ExternalT ExternalTermination_init))) =
        (Inr None, ExternalT ExternalTermination_init)
   \<and> ExternalTermination_call ExternalTermination_init [text_msg ''a'' ''hi''] =
        Inr (None, ExternalTermination_init)
   \<and> external_terminated \<lparr>external_terminated = True, setted = True\<rparr>
   \<and> fst (run [Evaluate runtime0 [text_msg ''a'' ''hi''], Reset runtime1, Evaluate runtime1 []]
            (ExternalT (ExternalTermination_set \<lparr>external_terminated = True, setted = True\<rparr>))) =
       fst (run [Evaluate runtime0 [text_msg ''a'' ''hi''], Reset runtime1, Evaluate runtime1 []]
            (ExternalT \<lparr>external_terminated = True, setted = True\<rparr>))
   \<and> snd (run [Set, Evaluate runtime0 []] (ExternalT ExternalTermination_init)) =
       ExternalT \<lparr>external_terminated = True, setted = True\<rparr>
   \<and> ExternalTermination_set \<lparr>external_terminated = True, setted = True\<rparr> =
       \<lparr>external_terminated = True, setted = True\<rparr>"
proof -
  let ?t = "\<lparr>external_terminated = True, setted = True\<rparr>"
  let ?as = "[Evaluate runtime0 [text_msg ''a'' ''hi''], Reset runtime1, Evaluate runtime1 []]"
  have fresh: "\<not> external_terminated ExternalTermination_init"
    by (simp add: ExternalTermination_init_def)
  have unset: "\<not> setted ExternalTermination_init"
    by (simp add: ExternalTermination_init_def)
  have sets: "\<forall>a\<in>set [Set]. a = Set" by simp
  have idle: "\<forall>a\<in>set [Set, Reset runtime1]. a = Set \<or> is_Reset a" by simp
  have is_reset: "is_Reset (Reset runtime1)" by simp
  have fired: "external_terminated ?t" by simp
  have reach: "snd (run [Set, Evaluate runtime0 []] (ExternalT ExternalTermination_init)) = ExternalT ?t"
    by (simp add: ExternalTermination_init_def ExternalTermination_set_def
        ExternalTermination_call_def)
  note ordering = external_flag_ordering [where rt = runtime0 and sets = "[Set]"
      and rt' = runtime0]
  from ordering [where s = ExternalTermination_init and before = "[]" and as = "[]"
      and ms = "[]"] fresh sets
  have a: "perform (Evaluate runtime0 []) (snd (run [Set, Set] (ExternalT ExternalTermination_init))) =
        (Inr (Some (new_StopMessage ''External termination requested'' ''ExternalTermination'')),
         ExternalT ?t)"
    by (simp add: ExternalTermination_init_def del: run.simps perform.simps)
  note later = ordering [where s = ?t and before = "[Set, Reset runtime1]" and as = "[]"
      and ms = "[]"]
  from later idle sets
  have a': "perform (Evaluate runtime0 [])
        (snd (run ([Set, Reset runtime1] @ [Set, Set]) (ExternalT ExternalTermination_init))) =
        (Inr (Some (new_StopMessage ''External termination requested'' ''ExternalTermination'')),
         ExternalT ?t)"
    by blast
  then have a'': "perform (Evaluate runtime0 [])
        (snd (run [Set, Reset runtime1, Set, Set] (ExternalT ExternalTermination_init))) =
        (Inr (Some (new_StopMessage ''External termination requested'' ''ExternalTermination'')),
         ExternalT ?t)"
    by (simp only: append_Cons append_Nil)
  from later idle
  have "perform (Evaluate runtime0 [])
        (snd (run ([Set, Reset runtime1] @ [Reset runtime0]) (ExternalT ExternalTermination_init))) =
        (Inr None, ExternalT ExternalTermination_init)"
    by blast
  then have cleared: "perform (Evaluate runtime0 [])
        (snd (run [Set, Reset runtime1, Reset runtime0] (ExternalT ExternalTermination_init))) =
        (Inr None, ExternalT ExternalTermination_init)"
    by (simp only: append_Cons append_Nil)
  from ordering [where s = ExternalTermination_init and before = "[]" and as = "[]"
      and ms = "[text_msg ''a'' ''hi'']"] fresh unset
  have never: "ExternalTermination_call ExternalTermination_init [text_msg ''a'' ''hi''] =
        Inr (None, ExternalTermination_init)"
    by blast
  from ordering [where s = ?t and before = "[]" and as = ?as and ms = "[]"] fired
  have b: "fst (run ?as (ExternalT (ExternalTermination_set ?t))) = fst (run ?as (ExternalT ?t))"
    by blast
  from ordering [where s = ?t and before = "[]" and as = "[Set, Evaluate runtime0 []]"
      and ms = "[]"] reach fired
  have c: "ExternalTermination_set ?t = ?t"
    by blast
  from fresh unset a is_reset a'' cleared never fired b reach c show ?thesis by blast
qed

section \<open>The stateless-trigger family\<close>

subsection \<open>Each loop returns at the first qualifying message\<close>

lemma StopMessage_loop_find:
  "StopMessageTermination_loop s ms =
     (case find (qualifies (StopMessageT s)) ms of
        None \<Rightarrow> (None, s)
      | Some m \<Rightarrow> StopMessageTermination_loop s [m])"
  by (induction ms) auto

lemma TextMention_loop_find:
  "TextMentionTermination_loop s ms =
     (case find (qualifies (TextMentionT s)) ms of
        None \<Rightarrow> (None, s)
      | Some m \<Rightarrow> TextMentionTermination_loop s [m])"
  by (induction ms) (auto split: option.splits)

lemma Handoff_loop_find:
  "HandoffTermination_loop s ms =
     (case find (qualifies (HandoffT s)) ms of
        None \<Rightarrow> (None, s)
      | Some m \<Rightarrow> HandoffTermination_loop s [m])"
  by (induction ms) (auto split: message_kind.splits)

lemma SourceMatch_loop_find:
  "SourceMatchTermination_loop s ms =
     (case find (qualifies (SourceMatchT s)) ms of
        None \<Rightarrow> (None, s)
      | Some m \<Rightarrow> SourceMatchTermination_loop s [m])"
  by (induction ms) auto

lemma TextMessage_loop_find:
  "TextMessageTermination_loop s ms =
     (case find (qualifies (TextMessageT s)) ms of
        None \<Rightarrow> (None, s)
      | Some m \<Rightarrow> TextMessageTermination_loop s [m])"
  by (induction ms) (auto split: option.splits)

lemma FunctionCall_executions_None:
  "FunctionCallTermination_executions s names = None \<longleftrightarrow> function_name s \<notin> set names"
  by (induction names) auto

lemma FunctionCall_loop_find:
  "FunctionCallTermination_loop s ms =
     (case find (qualifies (FunctionCallT s)) ms of
        None \<Rightarrow> (None, s)
      | Some m \<Rightarrow> FunctionCallTermination_loop s [m])"
proof (induction ms)
  case Nil
  show ?case by simp
next
  case (Cons m ms)
  show ?case
  proof (cases "qualifies (FunctionCallT s) m")
    case True
    then obtain names where "kind m = ToolCallExecutionEvent names" "function_name s \<in> set names"
      by (auto split: message_kind.splits)
    moreover from this have "FunctionCallTermination_executions s names \<noteq> None"
      by (simp add: FunctionCall_executions_None)
    ultimately show ?thesis using True by (auto split: option.splits)
  next
    case False
    then have "FunctionCallTermination_executions s names = None"
      if "kind m = ToolCallExecutionEvent names" for names
      using that by (simp add: FunctionCall_executions_None)
    then have step: "FunctionCallTermination_loop s (m # ms) = FunctionCallTermination_loop s ms"
      by (auto split: message_kind.splits option.splits)
    have skip: "find (qualifies (FunctionCallT s)) (m # ms) = find (qualifies (FunctionCallT s)) ms"
      using False by auto
    show ?thesis unfolding step skip by (rule Cons)
  qed
qed

lemma stateless_call_find:
  assumes "stateless_trigger p"
  shows "call rt p ms =
     (if terminated p then Inl TerminatedException
      else case find (qualifies p) ms of
             None \<Rightarrow> Inr (None, p)
           | Some m \<Rightarrow> call rt p [m])"
proof (cases p)
  case (StopMessageT s)
  then show ?thesis
    using StopMessage_loop_find [of s ms]
    by (simp add: StopMessageTermination_call_def split: option.splits)
next
  case (TextMentionT s)
  then show ?thesis
    using TextMention_loop_find [of s ms]
    by (simp add: TextMentionTermination_call_def split: option.splits)
next
  case (HandoffT s)
  then show ?thesis
    using Handoff_loop_find [of s ms]
    by (simp add: HandoffTermination_call_def split: option.splits)
next
  case (SourceMatchT s)
  then show ?thesis
    using SourceMatch_loop_find [of s ms]
    by (cases ms) (simp_all add: SourceMatchTermination_call_def split: option.splits)
next
  case (TextMessageT s)
  then show ?thesis
    using TextMessage_loop_find [of s ms]
    by (simp add: TextMessageTermination_call_def split: option.splits)
next
  case (FunctionCallT s)
  then show ?thesis
    using FunctionCall_loop_find [of s ms]
    by (simp add: FunctionCallTermination_call_def split: option.splits)
qed (use assms in simp_all)

lemma find_first_qualifying:
  assumes "P m" "\<forall>x\<in>set pre. \<not> P x"
  shows "find P (pre @ m # post) = Some m"
  using assms by (induction pre) auto

lemma find_cut_after_match:
  assumes "P m"
  shows "find P (pre @ m # post) = find P (pre @ [m])"
  using assms by (induction pre) auto

lemma FunctionCall_executions_Some:
  "function_name s \<in> set names \<Longrightarrow>
   FunctionCallTermination_executions s names =
     Some (Some (stop_directive (FunctionCallT s) m), s\<lparr>call_terminated := True\<rparr>)"
  by (induction names) auto

lemma stateless_call_decided:
  assumes "stateless_trigger p" "qualifies p m" "\<not> terminated p"
  shows "call rt p [m] = Inr (Some (stop_directive p m), set_triggered p)"
proof (cases p)
  case (StopMessageT s)
  with assms show ?thesis by (simp add: StopMessageTermination_call_def)
next
  case (TextMentionT s)
  with assms show ?thesis
    by (auto simp: TextMentionTermination_call_def split: option.splits)
next
  case (HandoffT s)
  with assms show ?thesis by (simp add: HandoffTermination_call_def)
next
  case (SourceMatchT s)
  with assms show ?thesis by (simp add: SourceMatchTermination_call_def)
next
  case (TextMessageT s)
  with assms show ?thesis
    by (auto simp: TextMessageTermination_call_def split: option.splits)
next
  case (FunctionCallT s)
  with assms obtain names where k: "kind m = ToolCallExecutionEvent names"
      "function_name s \<in> set names"
    by (auto split: message_kind.splits)
  with FunctionCallT assms FunctionCall_executions_Some [OF k(2), of m] show ?thesis
    by (simp add: FunctionCallTermination_call_def)
qed (use assms in simp_all)

lemma set_triggered_terminated:
  "stateless_trigger p \<Longrightarrow> terminated (set_triggered p)"
  by (cases p) simp_all

lemma stateless_call_first:
  assumes "stateless_trigger p"
  shows "call rt p ms =
     (if terminated p then Inl TerminatedException
      else case find (qualifies p) ms of
             None \<Rightarrow> Inr (None, p)
           | Some m \<Rightarrow> Inr (Some (stop_directive p m), set_triggered p))"
proof (cases "terminated p")
  case True
  then show ?thesis by (simp add: call_terminated_raises del: call.simps)
next
  case False
  show ?thesis
  proof (cases "find (qualifies p) ms")
    case None
    with False show ?thesis
      by (simp add: stateless_call_find [OF assms, of rt ms] del: call.simps)
  next
    case (Some m)
    then have "qualifies p m" by (auto simp: find_Some_iff)
    from stateless_call_decided [OF assms this False, of rt] Some False show ?thesis
      by (simp add: stateless_call_find [OF assms, of rt ms] del: call.simps)
  qed
qed

text \<open>
  Claim C8. Each of the six stateless-trigger conditions (stop marker, text mention,
  handoff, source match, plain text message, function call) scans the batch in its order:
  on an instance that has not fired, a batch without a qualifying message returns nothing
  and leaves the instance as it was, and otherwise the evaluation returns the stop message
  of the first qualifying message of the batch and sets the triggered flag. Hence, for a
  batch that contains a qualifying message \<open>m\<close>, the evaluation of the whole batch equals, in
  result and in state, the evaluation of the batch cut after \<open>m\<close>, and when \<open>m\<close> is the first
  qualifying message both equal the evaluation of \<open>m\<close> alone: nothing after the match
  matters.
\<close>

theorem first_match_decides:
  assumes "stateless_trigger p"
  shows "call rt p ms =
      (if terminated p then Inl TerminatedException
       else case find (qualifies p) ms of
              None \<Rightarrow> Inr (None, p)
            | Some m \<Rightarrow> Inr (Some (stop_directive p m), set_triggered p))
     \<and> terminated (set_triggered p)
     \<and> (qualifies p m \<longrightarrow>
          call rt p (pre @ m # post) = call rt p (pre @ [m])
          \<and> ((\<forall>x\<in>set pre. \<not> qualifies p x) \<longrightarrow>
               call rt p (pre @ m # post) = call rt p [m]
               \<and> (\<not> terminated p \<longrightarrow>
                    call rt p (pre @ m # post) =
                      Inr (Some (stop_directive p m), set_triggered p))))"
proof (intro conjI impI)
  show "call rt p ms =
      (if terminated p then Inl TerminatedException
       else case find (qualifies p) ms of
              None \<Rightarrow> Inr (None, p)
            | Some m \<Rightarrow> Inr (Some (stop_directive p m), set_triggered p))"
    by (rule stateless_call_first [OF assms])
next
  show "terminated (set_triggered p)"
    by (rule set_triggered_terminated [OF assms])
next
  assume q: "qualifies p m"
  show "call rt p (pre @ m # post) = call rt p (pre @ [m])"
    by (simp only: stateless_call_find [OF assms, of rt "pre @ m # post"]
        stateless_call_find [OF assms, of rt "pre @ [m]"]
        find_cut_after_match [of "qualifies p" m pre post, OF q])
next
  assume q: "qualifies p m" and first: "\<forall>x\<in>set pre. \<not> qualifies p x"
  have "call rt p (pre @ m # post) =
      (if terminated p then Inl TerminatedException else call rt p [m])"
    by (simp only: stateless_call_find [OF assms, of rt "pre @ m # post"]
        find_first_qualifying [of "qualifies p" m pre post, OF q first] option.case)
  then show whole: "call rt p (pre @ m # post) = call rt p [m]"
    using call_terminated_raises [of p rt "[m]"] by (cases "terminated p") simp_all
  assume "\<not> terminated p"
  with stateless_call_decided [OF assms q, of rt] whole
  show "call rt p (pre @ m # post) = Inr (Some (stop_directive p m), set_triggered p)"
    by simp
qed

theorem first_match_decides_witness:
  "stateless_trigger (TextMentionT (TextMentionTermination_init ''DONE'' (Some [''agentA''])))
   \<and> qualifies (TextMentionT (TextMentionTermination_init ''DONE'' (Some [''agentA''])))
         (text_msg ''agentA'' ''all DONE now'')
   \<and> \<not> qualifies (TextMentionT (TextMentionTermination_init ''DONE'' (Some [''agentA''])))
         (text_msg ''agentB'' ''DONE'')
   \<and> \<not> terminated (TextMentionT (TextMentionTermination_init ''DONE'' (Some [''agentA''])))
   \<and> call runtime0 (TextMentionT (TextMentionTermination_init ''DONE'' (Some [''agentA''])))
        [text_msg ''agentB'' ''DONE''] =
      Inr (None, TextMentionT (TextMentionTermination_init ''DONE'' (Some [''agentA''])))
   \<and> call runtime0 (TextMentionT (TextMentionTermination_init ''DONE'' (Some [''agentA''])))
        [text_msg ''agentB'' ''DONE'', text_msg ''agentA'' ''all DONE now'',
         text_msg ''agentA'' ''DONE''] =
      call runtime0 (TextMentionT (TextMentionTermination_init ''DONE'' (Some [''agentA''])))
        [text_msg ''agentB'' ''DONE'', text_msg ''agentA'' ''all DONE now'']
   \<and> call runtime0 (TextMentionT (TextMentionTermination_init ''DONE'' (Some [''agentA''])))
        [text_msg ''agentB'' ''DONE'', text_msg ''agentA'' ''all DONE now'',
         text_msg ''agentA'' ''DONE''] =
      Inr (Some (new_StopMessage (''Text '' @ [CHR 0x27] @ ''DONE'' @ [CHR 0x27] @ '' mentioned'')
                   ''TextMentionTermination''),
           TextMentionT \<lparr>termination_text = ''DONE'', mention_terminated = True,
                          mention_sources = Some [''agentA'']\<rparr>)"
proof -
  let ?p = "TextMentionT (TextMentionTermination_init ''DONE'' (Some [''agentA'']))"
  let ?m = "text_msg ''agentA'' ''all DONE now''"
  let ?pre = "[text_msg ''agentB'' ''DONE'']"
  let ?post = "[text_msg ''agentA'' ''DONE'']"
  have family: "stateless_trigger ?p" by simp
  have match: "qualifies ?p ?m"
    by (simp add: TextMentionTermination_init_def text_msg_def)
  have other: "\<not> qualifies ?p (text_msg ''agentB'' ''DONE'')"
    by (simp add: TextMentionTermination_init_def text_msg_def)
  then have first: "\<forall>x\<in>set ?pre. \<not> qualifies ?p x" by simp
  have fresh: "\<not> terminated ?p"
    by (simp add: TextMentionTermination_init_def)
  have none: "find (qualifies ?p) ?pre = None"
    using other by simp
  note decides = first_match_decides [OF family, of runtime0 ?pre ?m ?pre ?post]
  from decides fresh have "call runtime0 ?p ?pre =
      (case find (qualifies ?p) ?pre of
              None \<Rightarrow> Inr (None, ?p)
            | Some m \<Rightarrow> Inr (Some (stop_directive ?p m), set_triggered ?p))"
    by presburger
  then have silent: "call runtime0 ?p ?pre = Inr (None, ?p)"
    by (simp only: none option.case)
  from decides match have cut:
    "call runtime0 ?p (?pre @ ?m # ?post) = call runtime0 ?p (?pre @ [?m])"
    by blast
  from decides match first fresh have
    "call runtime0 ?p (?pre @ ?m # ?post) = Inr (Some (stop_directive ?p ?m), set_triggered ?p)"
    by blast
  also have "\<dots> =
      Inr (Some (new_StopMessage (''Text '' @ [CHR 0x27] @ ''DONE'' @ [CHR 0x27] @ '' mentioned'')
                   ''TextMentionTermination''),
           TextMentionT \<lparr>termination_text = ''DONE'', mention_terminated = True,
                          mention_sources = Some [''agentA'']\<rparr>)"
    by (simp add: TextMentionTermination_init_def)
  finally have result: "call runtime0 ?p (?pre @ ?m # ?post) =
      Inr (Some (new_StopMessage (''Text '' @ [CHR 0x27] @ ''DONE'' @ [CHR 0x27] @ '' mentioned'')
                   ''TextMentionTermination''),
           TextMentionT \<lparr>termination_text = ''DONE'', mention_terminated = True,
                          mention_sources = Some [''agentA'']\<rparr>)" .
  from family match other fresh silent cut result show ?thesis
    by (simp only: append_Cons append_Nil simp_thms)
qed

section \<open>The serialization round trip\<close>

text \<open>
  For every condition but a text mention with a source allow-list and a timeout constructed
  with an \<^verbatim>\<open>int\<close> duration, rebuilding from the serialized configuration gives exactly the
  instance a reset gives: the constructed parameters with fresh progress state (for a
  timeout, started at the current clock reading). It therefore behaves as the freshly reset
  original does. A timeout constructed with an \<^verbatim>\<open>int\<close> comes back with the \<^verbatim>\<open>float\<close> of the
  same value: it fires at the same clock readings, and its stop message renders the
  duration as a \<^verbatim>\<open>float\<close>.
\<close>

lemma to_config_reset: "to_config (reset rt p) = to_config p"
  by (cases p) (simp_all add: reset_defs)

lemma to_config_run: "to_config (snd (run as p)) = to_config p"
proof -
  have "to_config (snd (run as p)) = to_config (reset runtime0 (snd (run as p)))"
    by (simp only: to_config_reset)
  also have "\<dots> = to_config (reset runtime0 p)"
    by (simp only: run_then_reset)
  finally show ?thesis by (simp only: to_config_reset)
qed

lemma round_trip_constructed:
  assumes "construct rt0 k = Inr p0" and "to_config p0 = Some c"
    and "\<forall>s. p0 = TextMentionT s \<longrightarrow> mention_sources s = None"
    and "\<forall>s. p0 = TimeoutT s \<longrightarrow> (\<exists>x. timeout_seconds s = FloatNum x)"
  shows "from_config rt c = Inr (reset rt p0)"
  using assms
  by (cases k) (auto simp: init_defs reset_defs split: if_splits)

lemma round_trip_rebuilds_fresh:
  assumes "construct rt0 k = Inr p0" and "to_config (snd (run as p0)) = Some c"
    and "\<forall>s. p0 = TextMentionT s \<longrightarrow> mention_sources s = None"
    and "\<forall>s. p0 = TimeoutT s \<longrightarrow> (\<exists>x. timeout_seconds s = FloatNum x)"
  shows "from_config rt c = Inr (reset rt (snd (run as p0)))"
  using round_trip_constructed [OF assms(1) _ assms(3) assms(4)] assms(2)
  by (simp only: to_config_run run_then_reset)

lemma timeout_int_round_trip:
  "to_config (TimeoutT (TimeoutTermination_init rt0 (IntNum i))) =
     Some (TimeoutTerminationConfig (real_of_int i))
   \<and> from_config rt (TimeoutTerminationConfig (real_of_int i)) =
     Inr (TimeoutT (TimeoutTermination_init rt (FloatNum (real_of_int i))))
   \<and> fst (run [Evaluate rt' ms] (TimeoutT (TimeoutTermination_init rt (IntNum i)))) =
     [Inr (if monotonic rt' - monotonic rt \<ge> real_of_int i
           then Some (new_StopMessage (''Timeout of '' @ str_int i @ '' seconds reached'')
                        ''TimeoutTermination'')
           else None)]
   \<and> fst (run [Evaluate rt' ms] (TimeoutT (TimeoutTermination_init rt (FloatNum (real_of_int i))))) =
     [Inr (if monotonic rt' - monotonic rt \<ge> real_of_int i
           then Some (new_StopMessage
                        (''Timeout of '' @ float_str rt' (real_of_int i) @ '' seconds reached'')
                        ''TimeoutTermination'')
           else None)]"
  by (simp add: TimeoutTermination_init_def TimeoutTermination_call_def)

text \<open>
  Claim C1 requires the round trip to preserve behaviour for every condition type, and
  names the text mention constructed with a text and a source allow-list.
  \<^verbatim>\<open>TextMentionTermination._to_config\<close> writes the text only, so there the rebuilt
  instance has no allow-list: constructed with text \<^verbatim>\<open>DONE\<close> and sources \<^verbatim>\<open>["agentA"]\<close>, the
  original ignores a message from \<^verbatim>\<open>agentB\<close> that contains \<^verbatim>\<open>DONE\<close> and returns nothing, while
  the instance rebuilt from its configuration fires on it.
\<close>

theorem text_mention_round_trip_drops_sources:
  "to_config (TextMentionT (TextMentionTermination_init ''DONE'' (Some [''agentA'']))) =
      Some (TextMentionTerminationConfig ''DONE'')
   \<and> from_config runtime0 (TextMentionTerminationConfig ''DONE'') =
      Inr (TextMentionT (TextMentionTermination_init ''DONE'' None))
   \<and> fst (run [Evaluate runtime0 [text_msg ''agentB'' ''DONE'']]
           (TextMentionT (TextMentionTermination_init ''DONE'' (Some [''agentA''])))) =
      [Inr None]
   \<and> fst (run [Evaluate runtime0 [text_msg ''agentB'' ''DONE'']]
           (TextMentionT (TextMentionTermination_init ''DONE'' None))) =
      [Inr (Some (new_StopMessage
                    (''Text '' @ [CHR 0x27] @ ''DONE'' @ [CHR 0x27] @ '' mentioned'')
                    ''TextMentionTermination''))]"
  by (simp add: TextMentionTermination_init_def TextMentionTermination_call_def text_msg_def)

end
